theory Spec2Isabelle
  imports Complex_Main "HOL-Library.Char_ord" "HOL-Library.List_Lexorder"
begin

section \<open>Data model\<close>

text \<open>
  The rows of the \<open>task\<close> and \<open>recurrence_series\<close> tables, with the columns the
  recurrence code reads and writes. Text columns are \<open>string\<close>; a nullable column is an
  \<open>option\<close>. ISO dates are compared as text (JavaScript \<open><\<close> on strings, SQLite's
  binary collation): the lexicographic order of \<open>HOL-Library.List_Lexorder\<close> over the
  character order of \<open>HOL-Library.Char_ord\<close>.
\<close>

datatype task_status = Open | InProgress | Done

datatype task_priority = Low | Medium | High

datatype recurrence_type = RNone | Daily | Weekly | Monthly | Custom

datatype recurrence_behavior = AfterCompletion | DuplicateOnSchedule

record task =
  t_id :: string
  t_userId :: string
  t_projectId :: "string option"
  t_title :: string
  t_description :: "string option"
  t_status :: task_status
  t_priority :: task_priority
  t_dueDate :: "string option"
  t_recurrenceType :: recurrence_type
  t_recurrenceBehavior :: recurrence_behavior
  t_recurrenceRule :: "string option"
  t_recurrenceSeriesId :: "string option"
  t_recurrenceProcessedAt :: "string option"
  t_deletedAt :: "string option"
  t_createdAt :: string
  t_updatedAt :: string

record series =
  s_id :: string
  s_userId :: string
  s_projectId :: "string option"
  s_title :: string
  s_description :: "string option"
  s_priority :: task_priority
  s_recurrenceType :: recurrence_type
  s_recurrenceBehavior :: recurrence_behavior
  s_recurrenceRule :: "string option"
  s_nextDueDate :: string
  s_active :: bool
  s_deletedAt :: "string option"
  s_createdAt :: string
  s_updatedAt :: string

record project =
  p_id :: string
  p_userId :: string

text \<open>
  The store: the three tables in insertion order, and the number of row ids handed out
  so far. The schema's id default (a fresh unique text key for every inserted row) is
  not part of the sources at hand; every operation that inserts takes the generator
  \<open>gen\<close> as a parameter and draws \<open>gen (idSeq d)\<close>.
\<close>

record db =
  tasks :: "task list"
  recurrenceSeries :: "series list"
  projects :: "project list"
  idSeq :: nat

text \<open>
  \<open>getNextTaskRecurrenceDate (anchor, type, rule)\<close> of \<open>@/lib/task-recurrence\<close> is
  imported by the code below but is not part of the sources at hand: the operations
  take it as the parameter \<open>nxt\<close>.
\<close>

type_synonym next_date = "string \<Rightarrow> recurrence_type \<Rightarrow> string option \<Rightarrow> string option"

section \<open>Rollover (task-recurrence-rollover.ts)\<close>

text \<open>The \<open>where\<close> clause of the bulk update of \<open>releaseDueRecurringTasksForUser\<close>.\<close>

definition isDueRecurringTask :: "string \<Rightarrow> string \<Rightarrow> task \<Rightarrow> bool" where
  "isDueRecurringTask userId todayIsoDate t \<longleftrightarrow>
     t_userId t = userId \<and> t_deletedAt t = None \<and> t_status t = Done \<and>
     t_recurrenceType t \<noteq> RNone \<and>
     (case t_dueDate t of None \<Rightarrow> False | Some due \<Rightarrow> due \<le> todayIsoDate)"

text \<open>\<open>now\<close> is the clock reading \<open>new Date().toISOString()\<close>.\<close>

definition releaseDueRecurringTasksForUser :: "string \<Rightarrow> string \<Rightarrow> string \<Rightarrow> db \<Rightarrow> db" where
  "releaseDueRecurringTasksForUser userId todayIsoDate now d =
     d\<lparr>tasks :=
         map (\<lambda>t. if isDueRecurringTask userId todayIsoDate t
                  then t\<lparr>t_status := Open, t_updatedAt := now\<rparr> else t)
           (tasks d)\<rparr>"

section \<open>Series synchronisation (recurrence-series-sync)\<close>

definition isDigit :: "char \<Rightarrow> bool" where
  "isDigit c \<longleftrightarrow> CHR ''0'' \<le> c \<and> c \<le> CHR ''9''"

text \<open>\<open>isIsoDate\<close>: a string matching \<open>/^\d{4}-\d{2}-\d{2}$/\<close>; \<open>null\<close> is not one.\<close>

fun isIsoDate :: "string option \<Rightarrow> bool" where
  "isIsoDate (Some [y1, y2, y3, y4, h1, m1, m2, h2, d1, d2]) \<longleftrightarrow>
     isDigit y1 \<and> isDigit y2 \<and> isDigit y3 \<and> isDigit y4 \<and> h1 = CHR ''-'' \<and>
     isDigit m1 \<and> isDigit m2 \<and> h2 = CHR ''-'' \<and> isDigit d1 \<and> isDigit d2"
| "isIsoDate _ \<longleftrightarrow> False"

text \<open>The \<open>where\<close> clause selecting \<open>legacyRows\<close>.\<close>

definition isLegacyRow :: "string \<Rightarrow> task \<Rightarrow> bool" where
  "isLegacyRow userId t \<longleftrightarrow>
     t_userId t = userId \<and> t_deletedAt t = None \<and> t_recurrenceSeriesId t = None \<and>
     t_recurrenceType t \<noteq> RNone"

text \<open>The date the created series starts from, as the loop body computes it.\<close>

definition legacyNextDueDate :: "next_date \<Rightarrow> string \<Rightarrow> task \<Rightarrow> string" where
  "legacyNextDueDate nxt todayIsoDate row =
     (let dueAnchor = (case t_dueDate row of
                         Some due \<Rightarrow> if isIsoDate (Some due) then due else todayIsoDate
                       | None \<Rightarrow> todayIsoDate);
          completionAnchor = (if dueAnchor > todayIsoDate then dueAnchor else todayIsoDate)
      in if t_status row = Done
         then (case nxt completionAnchor (t_recurrenceType row) (t_recurrenceRule row) of
                 Some next \<Rightarrow> next
               | None \<Rightarrow> completionAnchor)
         else dueAnchor)"

text \<open>The \<open>values\<close> of the series insert, for the row \<open>row\<close> and the new id.\<close>

definition seriesValues :: "string \<Rightarrow> next_date \<Rightarrow> string \<Rightarrow> string \<Rightarrow> task \<Rightarrow> series" where
  "seriesValues newId nxt todayIsoDate now row =
     \<lparr>s_id = newId, s_userId = t_userId row, s_projectId = t_projectId row,
      s_title = t_title row, s_description = t_description row,
      s_priority = t_priority row, s_recurrenceType = t_recurrenceType row,
      s_recurrenceBehavior = t_recurrenceBehavior row,
      s_recurrenceRule = t_recurrenceRule row,
      s_nextDueDate = legacyNextDueDate nxt todayIsoDate row,
      s_active = True, s_deletedAt = None, s_createdAt = now, s_updatedAt = now\<rparr>"

text \<open>The \<open>set\<close> of the task update that links a legacy row to its series.\<close>

definition linkToSeries :: "string \<Rightarrow> string \<Rightarrow> task \<Rightarrow> task \<Rightarrow> task" where
  "linkToSeries createdId now row t =
     t\<lparr>t_recurrenceSeriesId := Some createdId,
       t_recurrenceType := RNone,
       t_recurrenceBehavior := AfterCompletion,
       t_recurrenceRule := None,
       t_recurrenceProcessedAt := (if t_status row = Done then Some now else None),
       t_updatedAt := now\<rparr>"

text \<open>
  One iteration of the loop over \<open>legacyRows\<close>: insert the series, then update the
  task rows whose id is the row's. The insert returns the created row, so the
  \<open>!createdSeries\<close> exit is never taken.
\<close>

definition migrateRow ::
  "next_date \<Rightarrow> (nat \<Rightarrow> string) \<Rightarrow> string \<Rightarrow> string \<Rightarrow> task \<Rightarrow> db \<Rightarrow> db" where
  "migrateRow nxt gen todayIsoDate now row d =
     (if t_recurrenceType row = RNone then d
      else
        let createdSeries = seriesValues (gen (idSeq d)) nxt todayIsoDate now row
        in d\<lparr>recurrenceSeries := recurrenceSeries d @ [createdSeries],
             idSeq := Suc (idSeq d),
             tasks :=
               map (\<lambda>t. if t_id t = t_id row
                        then linkToSeries (s_id createdSeries) now row t else t)
                 (tasks d)\<rparr>)"

fun migrateRows ::
  "next_date \<Rightarrow> (nat \<Rightarrow> string) \<Rightarrow> string \<Rightarrow> string \<Rightarrow> task list \<Rightarrow> db \<Rightarrow> db" where
  "migrateRows nxt gen todayIsoDate now [] d = d"
| "migrateRows nxt gen todayIsoDate now (row # rows) d =
     migrateRows nxt gen todayIsoDate now rows (migrateRow nxt gen todayIsoDate now row d)"

definition migrateLegacyTaskRecurrencesForUser ::
  "next_date \<Rightarrow> (nat \<Rightarrow> string) \<Rightarrow> string \<Rightarrow> string \<Rightarrow> string \<Rightarrow> db \<Rightarrow> db" where
  "migrateLegacyTaskRecurrencesForUser nxt gen userId todayIsoDate now d =
     migrateRows nxt gen todayIsoDate now (filter (isLegacyRow userId) (tasks d)) d"

text \<open>
  Both lookups take the first matching row (\<open>limit 1\<close>) and return \<open>Boolean(row?.id)\<close>:
  a row whose id is the empty string counts as no row.
\<close>

definition hasOutstandingInstance :: "string \<Rightarrow> db \<Rightarrow> bool" where
  "hasOutstandingInstance seriesId d =
     (case find (\<lambda>t. t_recurrenceSeriesId t = Some seriesId \<and> t_deletedAt t = None \<and>
                      t_status t \<noteq> Done) (tasks d) of
        None \<Rightarrow> False
      | Some row \<Rightarrow> t_id row \<noteq> [])"

definition hasMaterializedDueDate :: "string \<Rightarrow> string \<Rightarrow> db \<Rightarrow> bool" where
  "hasMaterializedDueDate seriesId dueDate d =
     (case find (\<lambda>t. t_recurrenceSeriesId t = Some seriesId \<and> t_dueDate t = Some dueDate \<and>
                      t_deletedAt t = None) (tasks d) of
        None \<Rightarrow> False
      | Some row \<Rightarrow> t_id row \<noteq> [])"

text \<open>The \<open>values\<close> of the task insert of \<open>materializeSeries\<close>, with the new id.\<close>

definition instanceValues :: "string \<Rightarrow> string \<Rightarrow> series \<Rightarrow> string \<Rightarrow> task" where
  "instanceValues newId now s dueDate =
     \<lparr>t_id = newId, t_userId = s_userId s, t_projectId = s_projectId s,
      t_title = s_title s, t_description = s_description s, t_status = Open,
      t_priority = s_priority s, t_dueDate = Some dueDate, t_recurrenceType = RNone,
      t_recurrenceBehavior = AfterCompletion, t_recurrenceRule = None,
      t_recurrenceSeriesId = Some (s_id s), t_recurrenceProcessedAt = None,
      t_deletedAt = None, t_createdAt = now, t_updatedAt = now\<rparr>"

definition materializeSeries :: "(nat \<Rightarrow> string) \<Rightarrow> string \<Rightarrow> series \<Rightarrow> string \<Rightarrow> db \<Rightarrow> db" where
  "materializeSeries gen now s dueDate d =
     d\<lparr>tasks := tasks d @ [instanceValues (gen (idSeq d)) now s dueDate],
       idSeq := Suc (idSeq d)\<rparr>"

text \<open>
  The catch-up loop \<open>for (let i = 0; i < 500; i += 1)\<close>; the first argument counts the
  iterations left. It returns the final cursor and the store. \<open>!next\<close> holds for
  \<open>null\<close> and for the empty string.
\<close>

fun catchUp ::
  "nat \<Rightarrow> next_date \<Rightarrow> (nat \<Rightarrow> string) \<Rightarrow> string \<Rightarrow> string \<Rightarrow> series \<Rightarrow> string \<Rightarrow> db
     \<Rightarrow> string \<times> db" where
  "catchUp 0 nxt gen todayIsoDate now s cursor d = (cursor, d)"
| "catchUp (Suc n) nxt gen todayIsoDate now s cursor d =
     (if cursor > todayIsoDate then (cursor, d)
      else
        let d' = (if \<not> hasMaterializedDueDate (s_id s) cursor d
                  then materializeSeries gen now s cursor d else d)
        in case nxt cursor (s_recurrenceType s) (s_recurrenceRule s) of
             None \<Rightarrow> (cursor, d')
           | Some next \<Rightarrow>
               if next = [] \<or> next = cursor then (cursor, d')
               else catchUp n nxt gen todayIsoDate now s next d')"

text \<open>The \<open>set\<close> of the series update that stores the cursor.\<close>

definition advanceSeries :: "string \<Rightarrow> string \<Rightarrow> series \<Rightarrow> series" where
  "advanceSeries cursor now r = r\<lparr>s_nextDueDate := cursor, s_updatedAt := now\<rparr>"

text \<open>The body of the loop over \<open>seriesRows\<close>.\<close>

definition syncSeries ::
  "next_date \<Rightarrow> (nat \<Rightarrow> string) \<Rightarrow> string \<Rightarrow> string \<Rightarrow> series \<Rightarrow> db \<Rightarrow> db" where
  "syncSeries nxt gen todayIsoDate now s d =
     (if s_recurrenceBehavior s = AfterCompletion then
        (if hasOutstandingInstance (s_id s) d then d
         else if \<not> hasMaterializedDueDate (s_id s) (s_nextDueDate s) d
              then materializeSeries gen now s (s_nextDueDate s) d
              else d)
      else
        (case catchUp 500 nxt gen todayIsoDate now s (s_nextDueDate s) d of
           (cursor, d') \<Rightarrow>
             if cursor \<noteq> s_nextDueDate s
             then d'\<lparr>recurrenceSeries :=
                      map (\<lambda>r. if s_id r = s_id s then advanceSeries cursor now r else r)
                        (recurrenceSeries d')\<rparr>
             else d'))"

fun syncRows ::
  "next_date \<Rightarrow> (nat \<Rightarrow> string) \<Rightarrow> string \<Rightarrow> string \<Rightarrow> series list \<Rightarrow> db \<Rightarrow> db" where
  "syncRows nxt gen todayIsoDate now [] d = d"
| "syncRows nxt gen todayIsoDate now (s # rows) d =
     syncRows nxt gen todayIsoDate now rows (syncSeries nxt gen todayIsoDate now s d)"

text \<open>The \<open>where\<close> clause selecting \<open>seriesRows\<close>.\<close>

definition isDueSeries :: "string \<Rightarrow> string \<Rightarrow> series \<Rightarrow> bool" where
  "isDueSeries userId todayIsoDate s \<longleftrightarrow>
     s_userId s = userId \<and> s_deletedAt s = None \<and> s_active s \<and>
     s_nextDueDate s \<le> todayIsoDate"

definition syncRecurrenceSeriesForUser ::
  "next_date \<Rightarrow> (nat \<Rightarrow> string) \<Rightarrow> string \<Rightarrow> string \<Rightarrow> string \<Rightarrow> db \<Rightarrow> db" where
  "syncRecurrenceSeriesForUser nxt gen userId todayIsoDate now d =
     (let d1 = migrateLegacyTaskRecurrencesForUser nxt gen userId todayIsoDate now d
      in syncRows nxt gen todayIsoDate now
           (filter (isDueSeries userId todayIsoDate) (recurrenceSeries d1)) d1)"

section \<open>Store invariants\<close>

text \<open>
  What the primary keys and the id default guarantee: task ids are distinct and not
  empty, series ids are distinct, and the ids still to be drawn are not empty, differ
  from each other and from every id in the store.
\<close>

definition wellFormed :: "(nat \<Rightarrow> string) \<Rightarrow> db \<Rightarrow> bool" where
  "wellFormed gen d \<longleftrightarrow>
     distinct (map t_id (tasks d)) \<and> distinct (map s_id (recurrenceSeries d)) \<and>
     (\<forall>t\<in>set (tasks d). t_id t \<noteq> []) \<and>
     inj_on gen {idSeq d..} \<and>
     (\<forall>k\<ge>idSeq d. gen k \<noteq> [] \<and> (\<forall>t\<in>set (tasks d). t_id t \<noteq> gen k) \<and>
                     (\<forall>s\<in>set (recurrenceSeries d). s_id s \<noteq> gen k))"

text \<open>The task rows linked to a series, in table order.\<close>

definition instancesOf :: "string \<Rightarrow> db \<Rightarrow> task list" where
  "instancesOf seriesId d = filter (\<lambda>t. t_recurrenceSeriesId t = Some seriesId) (tasks d)"

text \<open>
  Whether the helper yields no usable next date at a cursor: the two \<open>break\<close>
  conditions after the call, \<open>!next\<close> and \<open>next === cursor\<close>.
\<close>

definition noNextDate :: "next_date \<Rightarrow> series \<Rightarrow> string \<Rightarrow> bool" where
  "noNextDate nxt s cursor =
     (case nxt cursor (s_recurrenceType s) (s_recurrenceRule s) of
        None \<Rightarrow> True
      | Some next \<Rightarrow> next = [] \<or> next = cursor)"

text \<open>
  Whether the catch-up loop, started at \<open>cursor\<close> with \<open>n\<close> iterations left, ends with
  its cursor after today or at a date with no next date, rather than by running out of
  iterations with dates up to today still to visit. It follows the cursor of \<open>catchUp\<close>
  and reads no store.
\<close>

fun caughtUp :: "nat \<Rightarrow> next_date \<Rightarrow> string \<Rightarrow> series \<Rightarrow> string \<Rightarrow> bool" where
  "caughtUp 0 nxt todayIsoDate s cursor \<longleftrightarrow> cursor > todayIsoDate"
| "caughtUp (Suc n) nxt todayIsoDate s cursor \<longleftrightarrow>
     (if cursor > todayIsoDate then True
      else case nxt cursor (s_recurrenceType s) (s_recurrenceRule s) of
             None \<Rightarrow> True
           | Some next \<Rightarrow>
               if next = [] \<or> next = cursor then True
               else caughtUp n nxt todayIsoDate s next)"

text \<open>
  A schedule of a series: each date of the list is the helper's next date after the one
  before it, and later than it.
\<close>

fun schedule :: "next_date \<Rightarrow> series \<Rightarrow> string list \<Rightarrow> bool" where
  "schedule nxt s (c # c' # cs) \<longleftrightarrow>
     nxt c (s_recurrenceType s) (s_recurrenceRule s) = Some c' \<and> c < c' \<and>
     schedule nxt s (c' # cs)"
| "schedule nxt s cs \<longleftrightarrow> True"

text \<open>
  How a pass grows the task table: rows are only appended, each the values
  \<open>materializeSeries\<close> inserts for a series of \<open>S\<close>, with the next ids in order.
\<close>

definition appended :: "(nat \<Rightarrow> string) \<Rightarrow> string \<Rightarrow> series set \<Rightarrow> db \<Rightarrow> db \<Rightarrow> bool" where
  "appended gen now S d d' \<longleftrightarrow>
     projects d' = projects d \<and>
     (\<exists>news. tasks d' = tasks d @ news \<and> idSeq d' = idSeq d + length news \<and>
        (\<forall>j<length news. \<exists>s\<in>S. \<exists>due.
           news ! j = instanceValues (gen (idSeq d + j)) now s due))"

text \<open>
  A series row a pass has nothing to do for: an after-completion row with an outstanding
  instance or an instance due on its \<open>nextDueDate\<close>; a duplicate-on-schedule row whose
  \<open>nextDueDate\<close> is materialized and has no next date.
\<close>

definition settled :: "next_date \<Rightarrow> series \<Rightarrow> db \<Rightarrow> bool" where
  "settled nxt r d \<longleftrightarrow>
     (if s_recurrenceBehavior r = AfterCompletion
      then hasOutstandingInstance (s_id r) d \<or>
           hasMaterializedDueDate (s_id r) (s_nextDueDate r) d
      else hasMaterializedDueDate (s_id r) (s_nextDueDate r) d \<and>
           noNextDate nxt r (s_nextDueDate r))"

text \<open>
  The cursor after \<open>n\<close> full iterations of the catch-up loop, when none of them leaves
  the loop: every cursor on the way is on or before today and has a later next date.
\<close>

fun steps :: "nat \<Rightarrow> next_date \<Rightarrow> series \<Rightarrow> string \<Rightarrow> string \<Rightarrow> string option" where
  "steps 0 nxt s todayIsoDate cursor = Some cursor"
| "steps (Suc n) nxt s todayIsoDate cursor =
     (if cursor > todayIsoDate then None
      else case nxt cursor (s_recurrenceType s) (s_recurrenceRule s) of
             None \<Rightarrow> None
           | Some c' \<Rightarrow> if cursor < c' then steps n nxt s todayIsoDate c' else None)"

section \<open>The rule algebra, from the specification\<close>

text \<open>
  Modelled from the spec: \<open>getNextTaskRecurrenceDate\<close> of \<open>@/lib/task-recurrence\<close>
  (the spec's \<open>nextOccurrence\<close>) is missing from the sources. The spec: daily adds 1
  day; weekly adds 7 days; monthly adds 1 calendar month, clamped to the last valid day
  of the target month; custom adds \<open>rule.interval\<close> units of \<open>rule.unit\<close>; none only
  for a malformed or missing rule on a custom kind. The spec says nothing of an anchor
  that is no calendar date, nor of the text encoding of a stored rule: the model
  answers none for the first and takes the decoder of the second as the parameter
  \<open>decode\<close>. The general theorems below do not use this model: they hold for every
  \<open>nxt\<close>. It supplies the concrete instances.
\<close>

type_synonym ymd = "nat \<times> nat \<times> nat"

datatype recurrence_unit = UDay | UWeek | UMonth

record custom_rule =
  interval :: nat
  unit :: recurrence_unit

definition digitVal :: "char \<Rightarrow> nat" where
  "digitVal c = of_char c - 48"

fun parseIsoDate :: "string \<Rightarrow> ymd option" where
  "parseIsoDate [y1, y2, y3, y4, h1, m1, m2, h2, d1, d2] =
     (if isIsoDate (Some [y1, y2, y3, y4, h1, m1, m2, h2, d1, d2])
      then Some (1000 * digitVal y1 + 100 * digitVal y2 + 10 * digitVal y3 + digitVal y4,
                 10 * digitVal m1 + digitVal m2, 10 * digitVal d1 + digitVal d2)
      else None)"
| "parseIsoDate _ = None"

definition isLeapYear :: "nat \<Rightarrow> bool" where
  "isLeapYear y \<longleftrightarrow> (y mod 4 = 0 \<and> y mod 100 \<noteq> 0) \<or> y mod 400 = 0"

definition daysInMonth :: "nat \<Rightarrow> nat \<Rightarrow> nat" where
  "daysInMonth y m =
     (if m = 2 then (if isLeapYear y then 29 else 28)
      else if m = 4 \<or> m = 6 \<or> m = 9 \<or> m = 11 then 30 else 31)"

fun validYmd :: "ymd \<Rightarrow> bool" where
  "validYmd (y, m, d) \<longleftrightarrow> 1 \<le> m \<and> m \<le> 12 \<and> 1 \<le> d \<and> d \<le> daysInMonth y m"

fun addDay :: "ymd \<Rightarrow> ymd" where
  "addDay (y, m, d) =
     (if d < daysInMonth y m then (y, m, d + 1)
      else if m < 12 then (y, m + 1, 1) else (y + 1, 1, 1))"

fun addDays :: "nat \<Rightarrow> ymd \<Rightarrow> ymd" where
  "addDays 0 x = x"
| "addDays (Suc n) x = addDays n (addDay x)"

text \<open>The month \<open>k\<close> months after January of year \<open>y\<close>, with the day clamped.\<close>

definition clampDay :: "nat \<Rightarrow> nat \<Rightarrow> nat \<Rightarrow> ymd" where
  "clampDay y k d = (y + k div 12, k mod 12 + 1, min d (daysInMonth (y + k div 12) (k mod 12 + 1)))"

fun addMonths :: "nat \<Rightarrow> ymd \<Rightarrow> ymd" where
  "addMonths n (y, m, d) = clampDay y ((m - 1) + n) d"

definition digitChar :: "nat \<Rightarrow> char" where
  "digitChar n = ''0123456789'' ! (n mod 10)"

definition pad2 :: "nat \<Rightarrow> string" where
  "pad2 n = [digitChar (n div 10), digitChar n]"

definition pad4 :: "nat \<Rightarrow> string" where
  "pad4 n = (if n < 10000 then pad2 (n div 100) @ pad2 n
             else pad2 (n div 10000) @ pad2 (n div 100) @ pad2 n)"

fun formatIsoDate :: "ymd \<Rightarrow> string" where
  "formatIsoDate (y, m, d) = pad4 y @ ''-'' @ pad2 m @ ''-'' @ pad2 d"

fun addInterval :: "custom_rule \<Rightarrow> ymd \<Rightarrow> ymd" where
  "addInterval \<lparr>interval = n, unit = UDay\<rparr> x = addDays n x"
| "addInterval \<lparr>interval = n, unit = UWeek\<rparr> x = addDays (7 * n) x"
| "addInterval \<lparr>interval = n, unit = UMonth\<rparr> x = addMonths n x"

fun nextYmd :: "(string \<Rightarrow> custom_rule option) \<Rightarrow> recurrence_type \<Rightarrow> string option \<Rightarrow> ymd \<Rightarrow> ymd option" where
  "nextYmd decode RNone rule x = None"
| "nextYmd decode Daily rule x = Some (addDays 1 x)"
| "nextYmd decode Weekly rule x = Some (addDays 7 x)"
| "nextYmd decode Monthly rule x = Some (addMonths 1 x)"
| "nextYmd decode Custom None x = None"
| "nextYmd decode Custom (Some r) x =
     (case decode r of
        None \<Rightarrow> None
      | Some c \<Rightarrow> if interval c < 1 \<or> 365 < interval c then None else Some (addInterval c x))"

definition getNextTaskRecurrenceDate ::
  "(string \<Rightarrow> custom_rule option) \<Rightarrow> next_date" where
  "getNextTaskRecurrenceDate decode anchor ty rule =
     (case parseIsoDate anchor of
        None \<Rightarrow> None
      | Some x \<Rightarrow>
          if \<not> validYmd x then None
          else map_option formatIsoDate (nextYmd decode ty rule x))"

text \<open>
  A helper cut down to the answers that are not before the anchor: it instantiates the
  theorems that assume this of the helper.
\<close>

definition forwardOnly :: "next_date \<Rightarrow> next_date" where
  "forwardOnly nxt anchor ty rule =
     (case nxt anchor ty rule of
        None \<Rightarrow> None
      | Some d \<Rightarrow> if anchor \<le> d then Some d else None)"

section \<open>Example store\<close>

text \<open>
  A small store on which the theorems are instantiated: one user with a completed and
  an open legacy recurring task, a plain task, and two series due on or before
  \<open>2024-05-10\<close>.
\<close>

definition exampleGen :: "nat \<Rightarrow> string" where
  "exampleGen n = CHR ''r'' # replicate n (CHR ''+'')"

definition exampleNext :: next_date where
  "exampleNext = getNextTaskRecurrenceDate (\<lambda>_. None)"

definition exampleTask :: task where
  "exampleTask =
     \<lparr>t_id = ''t0'', t_userId = ''alice'', t_projectId = None, t_title = ''Water plants'',
      t_description = None, t_status = Open, t_priority = Medium,
      t_dueDate = Some ''2024-05-01'', t_recurrenceType = Daily,
      t_recurrenceBehavior = AfterCompletion, t_recurrenceRule = None,
      t_recurrenceSeriesId = None, t_recurrenceProcessedAt = None, t_deletedAt = None,
      t_createdAt = ''2024-04-01T08:00:00.000Z'', t_updatedAt = ''2024-04-01T08:00:00.000Z''\<rparr>"

definition exampleSeries :: series where
  "exampleSeries =
     \<lparr>s_id = ''s0'', s_userId = ''alice'', s_projectId = Some ''p1'', s_title = ''Stand-up notes'',
      s_description = Some ''daily'', s_priority = High, s_recurrenceType = Daily,
      s_recurrenceBehavior = AfterCompletion, s_recurrenceRule = None,
      s_nextDueDate = ''2024-05-10'', s_active = True, s_deletedAt = None,
      s_createdAt = ''2024-04-01T08:00:00.000Z'', s_updatedAt = ''2024-04-01T08:00:00.000Z''\<rparr>"

definition exampleDb :: db where
  "exampleDb =
     \<lparr>tasks =
        [exampleTask,
         exampleTask\<lparr>t_id := ''t1'', t_title := ''Pay rent'', t_status := Done,
                     t_recurrenceType := Monthly, t_dueDate := Some ''2024-04-30''\<rparr>,
         exampleTask\<lparr>t_id := ''t2'', t_title := ''Buy milk'', t_recurrenceType := RNone,
                     t_dueDate := None\<rparr>],
      recurrenceSeries =
        [exampleSeries,
         exampleSeries\<lparr>s_id := ''s1'', s_title := ''Backup'',
                       s_recurrenceBehavior := DuplicateOnSchedule,
                       s_nextDueDate := ''2024-05-08''\<rparr>],
      projects = [\<lparr>p_id = ''p1'', p_userId = ''alice''\<rparr>],
      idSeq = 0\<rparr>"

text \<open>A store with one duplicate-on-schedule daily series and no task.\<close>

definition backlogSeries :: "string \<Rightarrow> series" where
  "backlogSeries due =
     exampleSeries\<lparr>s_id := ''s1'', s_title := ''Backup'',
                   s_recurrenceBehavior := DuplicateOnSchedule, s_nextDueDate := due\<rparr>"

definition backlogDb :: "string \<Rightarrow> db" where
  "backlogDb due = \<lparr>tasks = [], recurrenceSeries = [backlogSeries due], projects = [], idSeq = 0\<rparr>"

section \<open>Rollover: the bulk reopen\<close>

lemma rollover_nth:
  "i < length (tasks d) \<Longrightarrow>
   tasks (releaseDueRecurringTasksForUser u today now d) ! i =
     (if isDueRecurringTask u today (tasks d ! i)
      then (tasks d ! i)\<lparr>t_status := Open, t_updatedAt := now\<rparr> else tasks d ! i)"
  by (simp add: releaseDueRecurringTasksForUser_def)

lemma isDueRecurringTask_iff:
  "isDueRecurringTask u today t \<longleftrightarrow>
     t_userId t = u \<and> t_deletedAt t = None \<and> t_status t = Done \<and>
     t_recurrenceType t \<noteq> RNone \<and> (\<exists>due. t_dueDate t = Some due \<and> due \<le> today)"
  by (cases "t_dueDate t") (simp_all add: isDueRecurringTask_def)

lemma rollover_twice:
  "releaseDueRecurringTasksForUser u today now'
     (releaseDueRecurringTasksForUser u today now d) =
   releaseDueRecurringTasksForUser u today now d"
  by (simp add: releaseDueRecurringTasksForUser_def isDueRecurringTask_def cong: map_cong)

text \<open>
  Claim C8. \<open>rollover (userId, today)\<close> changes exactly the user's tasks that are not
  soft-deleted, have status done, an inline recurrence kind other than none and a due
  date that is not null and at most today: their status becomes open (and their
  \<open>updatedAt\<close> the clock reading); every other task row is left as it is. No task row is
  added, the series table (and the rest of the store) is untouched, and a second run
  right after changes nothing.
\<close>

theorem rollover_reopens_exactly_the_due_legacy_tasks:
  "length (tasks (releaseDueRecurringTasksForUser u today now d)) = length (tasks d) \<and>
   (\<forall>i<length (tasks d).
      if t_userId (tasks d ! i) = u \<and> t_deletedAt (tasks d ! i) = None \<and>
         t_status (tasks d ! i) = Done \<and> t_recurrenceType (tasks d ! i) \<noteq> RNone \<and>
         (\<exists>due. t_dueDate (tasks d ! i) = Some due \<and> due \<le> today)
      then tasks (releaseDueRecurringTasksForUser u today now d) ! i =
             (tasks d ! i)\<lparr>t_status := Open, t_updatedAt := now\<rparr>
      else tasks (releaseDueRecurringTasksForUser u today now d) ! i = tasks d ! i) \<and>
   recurrenceSeries (releaseDueRecurringTasksForUser u today now d) = recurrenceSeries d \<and>
   projects (releaseDueRecurringTasksForUser u today now d) = projects d \<and>
   idSeq (releaseDueRecurringTasksForUser u today now d) = idSeq d \<and>
   releaseDueRecurringTasksForUser u today now'
     (releaseDueRecurringTasksForUser u today now d) =
   releaseDueRecurringTasksForUser u today now d"
proof (intro conjI allI impI)
  fix i assume i: "i < length (tasks d)"
  show "if t_userId (tasks d ! i) = u \<and> t_deletedAt (tasks d ! i) = None \<and>
         t_status (tasks d ! i) = Done \<and> t_recurrenceType (tasks d ! i) \<noteq> RNone \<and>
         (\<exists>due. t_dueDate (tasks d ! i) = Some due \<and> due \<le> today)
      then tasks (releaseDueRecurringTasksForUser u today now d) ! i =
             (tasks d ! i)\<lparr>t_status := Open, t_updatedAt := now\<rparr>
      else tasks (releaseDueRecurringTasksForUser u today now d) ! i = tasks d ! i"
    unfolding rollover_nth [OF i] isDueRecurringTask_iff [symmetric] by simp
qed (simp_all add: rollover_twice, simp_all add: releaseDueRecurringTasksForUser_def)

theorem rollover_reopens_exactly_the_due_legacy_tasks_witness:
  "map t_status
     (tasks (releaseDueRecurringTasksForUser ''alice'' ''2024-05-10'' ''2024-05-10T06:00:00.000Z''
        exampleDb)) = [Open, Open, Open] \<and>
   map t_status (tasks exampleDb) = [Open, Done, Open] \<and>
   tasks (releaseDueRecurringTasksForUser ''alice'' ''2024-05-10'' ''2024-05-10T06:00:00.000Z''
        exampleDb) ! 1 =
     (tasks exampleDb ! 1)\<lparr>t_status := Open, t_updatedAt := ''2024-05-10T06:00:00.000Z''\<rparr> \<and>
   tasks (releaseDueRecurringTasksForUser ''alice'' ''2024-05-10'' ''2024-05-10T06:00:00.000Z''
        exampleDb) ! 0 = tasks exampleDb ! 0 \<and>
   releaseDueRecurringTasksForUser ''alice'' ''2024-05-10'' ''2024-05-10T07:00:00.000Z''
     (releaseDueRecurringTasksForUser ''alice'' ''2024-05-10'' ''2024-05-10T06:00:00.000Z''
        exampleDb) =
   releaseDueRecurringTasksForUser ''alice'' ''2024-05-10'' ''2024-05-10T06:00:00.000Z'' exampleDb"
proof -
  note spec = rollover_reopens_exactly_the_due_legacy_tasks
    [of "''alice''" "''2024-05-10''" "''2024-05-10T06:00:00.000Z''" exampleDb
        "''2024-05-10T07:00:00.000Z''"]
  have len: "length (tasks exampleDb) = 3"
    by (simp add: exampleDb_def)
  have due1: "t_userId (tasks exampleDb ! 1) = ''alice'' \<and> t_deletedAt (tasks exampleDb ! 1) = None \<and>
         t_status (tasks exampleDb ! 1) = Done \<and> t_recurrenceType (tasks exampleDb ! 1) \<noteq> RNone \<and>
         (\<exists>due. t_dueDate (tasks exampleDb ! 1) = Some due \<and> due \<le> ''2024-05-10'')"
    by (simp add: exampleDb_def exampleTask_def)
  have due0: "\<not> (t_userId (tasks exampleDb ! 0) = ''alice'' \<and> t_deletedAt (tasks exampleDb ! 0) = None \<and>
         t_status (tasks exampleDb ! 0) = Done \<and> t_recurrenceType (tasks exampleDb ! 0) \<noteq> RNone \<and>
         (\<exists>due. t_dueDate (tasks exampleDb ! 0) = Some due \<and> due \<le> ''2024-05-10''))"
    by (simp add: exampleDb_def exampleTask_def)
  from spec have all: "\<forall>i<length (tasks exampleDb).
      if t_userId (tasks exampleDb ! i) = ''alice'' \<and> t_deletedAt (tasks exampleDb ! i) = None \<and>
         t_status (tasks exampleDb ! i) = Done \<and> t_recurrenceType (tasks exampleDb ! i) \<noteq> RNone \<and>
         (\<exists>due. t_dueDate (tasks exampleDb ! i) = Some due \<and> due \<le> ''2024-05-10'')
      then tasks (releaseDueRecurringTasksForUser ''alice'' ''2024-05-10'' ''2024-05-10T06:00:00.000Z'' exampleDb) ! i =
             (tasks exampleDb ! i)\<lparr>t_status := Open, t_updatedAt := ''2024-05-10T06:00:00.000Z''\<rparr>
      else tasks (releaseDueRecurringTasksForUser ''alice'' ''2024-05-10'' ''2024-05-10T06:00:00.000Z'' exampleDb) ! i = tasks exampleDb ! i"
    by (rule conjunct1 [OF conjunct2])
  have n1: "tasks (releaseDueRecurringTasksForUser ''alice'' ''2024-05-10'' ''2024-05-10T06:00:00.000Z'' exampleDb) ! 1 =
     (tasks exampleDb ! 1)\<lparr>t_status := Open, t_updatedAt := ''2024-05-10T06:00:00.000Z''\<rparr>"
    using all [rule_format, of 1] len due1 by simp
  have n0: "tasks (releaseDueRecurringTasksForUser ''alice'' ''2024-05-10'' ''2024-05-10T06:00:00.000Z'' exampleDb) ! 0 =
     tasks exampleDb ! 0"
    using all [rule_format, of 0] len due0 by simp
  have st: "map t_status
     (tasks (releaseDueRecurringTasksForUser ''alice'' ''2024-05-10'' ''2024-05-10T06:00:00.000Z''
        exampleDb)) = [Open, Open, Open]"
    by code_simp
  have st0: "map t_status (tasks exampleDb) = [Open, Done, Open]"
    by code_simp
  from spec have twice: "releaseDueRecurringTasksForUser ''alice'' ''2024-05-10'' ''2024-05-10T07:00:00.000Z''
     (releaseDueRecurringTasksForUser ''alice'' ''2024-05-10'' ''2024-05-10T06:00:00.000Z''
        exampleDb) =
   releaseDueRecurringTasksForUser ''alice'' ''2024-05-10'' ''2024-05-10T06:00:00.000Z'' exampleDb"
    by (elim conjE)
  show ?thesis
    using st st0 n1 n0 twice by (intro conjI)
qed

section \<open>Rows inserted and patched\<close>

lemma instanceValues_sel [simp]:
  "t_id (instanceValues i now s due) = i"
  "t_userId (instanceValues i now s due) = s_userId s"
  "t_projectId (instanceValues i now s due) = s_projectId s"
  "t_title (instanceValues i now s due) = s_title s"
  "t_description (instanceValues i now s due) = s_description s"
  "t_status (instanceValues i now s due) = Open"
  "t_priority (instanceValues i now s due) = s_priority s"
  "t_dueDate (instanceValues i now s due) = Some due"
  "t_recurrenceType (instanceValues i now s due) = RNone"
  "t_recurrenceBehavior (instanceValues i now s due) = AfterCompletion"
  "t_recurrenceRule (instanceValues i now s due) = None"
  "t_recurrenceSeriesId (instanceValues i now s due) = Some (s_id s)"
  "t_recurrenceProcessedAt (instanceValues i now s due) = None"
  "t_deletedAt (instanceValues i now s due) = None"
  "t_createdAt (instanceValues i now s due) = now"
  "t_updatedAt (instanceValues i now s due) = now"
  by (simp_all add: instanceValues_def)

lemma linkToSeries_sel [simp]:
  "t_id (linkToSeries c now row t) = t_id t"
  "t_userId (linkToSeries c now row t) = t_userId t"
  "t_projectId (linkToSeries c now row t) = t_projectId t"
  "t_title (linkToSeries c now row t) = t_title t"
  "t_description (linkToSeries c now row t) = t_description t"
  "t_status (linkToSeries c now row t) = t_status t"
  "t_priority (linkToSeries c now row t) = t_priority t"
  "t_dueDate (linkToSeries c now row t) = t_dueDate t"
  "t_recurrenceType (linkToSeries c now row t) = RNone"
  "t_recurrenceBehavior (linkToSeries c now row t) = AfterCompletion"
  "t_recurrenceRule (linkToSeries c now row t) = None"
  "t_recurrenceSeriesId (linkToSeries c now row t) = Some c"
  "t_recurrenceProcessedAt (linkToSeries c now row t) =
     (if t_status row = Done then Some now else None)"
  "t_deletedAt (linkToSeries c now row t) = t_deletedAt t"
  "t_createdAt (linkToSeries c now row t) = t_createdAt t"
  "t_updatedAt (linkToSeries c now row t) = now"
  by (simp_all add: linkToSeries_def)

lemma linkToSeries_twice [simp]:
  "linkToSeries c' now row' (linkToSeries c now row t) = linkToSeries c' now row' t"
  by (simp add: linkToSeries_def)

lemma seriesValues_sel [simp]:
  "s_id (seriesValues i nxt today now row) = i"
  "s_userId (seriesValues i nxt today now row) = t_userId row"
  "s_projectId (seriesValues i nxt today now row) = t_projectId row"
  "s_title (seriesValues i nxt today now row) = t_title row"
  "s_description (seriesValues i nxt today now row) = t_description row"
  "s_priority (seriesValues i nxt today now row) = t_priority row"
  "s_recurrenceType (seriesValues i nxt today now row) = t_recurrenceType row"
  "s_recurrenceBehavior (seriesValues i nxt today now row) = t_recurrenceBehavior row"
  "s_recurrenceRule (seriesValues i nxt today now row) = t_recurrenceRule row"
  "s_nextDueDate (seriesValues i nxt today now row) = legacyNextDueDate nxt today row"
  "s_active (seriesValues i nxt today now row) = True"
  "s_deletedAt (seriesValues i nxt today now row) = None"
  "s_createdAt (seriesValues i nxt today now row) = now"
  "s_updatedAt (seriesValues i nxt today now row) = now"
  by (simp_all add: seriesValues_def)

lemma advanceSeries_sel [simp]:
  "s_id (advanceSeries c now r) = s_id r"
  "s_userId (advanceSeries c now r) = s_userId r"
  "s_projectId (advanceSeries c now r) = s_projectId r"
  "s_title (advanceSeries c now r) = s_title r"
  "s_description (advanceSeries c now r) = s_description r"
  "s_priority (advanceSeries c now r) = s_priority r"
  "s_recurrenceType (advanceSeries c now r) = s_recurrenceType r"
  "s_recurrenceBehavior (advanceSeries c now r) = s_recurrenceBehavior r"
  "s_recurrenceRule (advanceSeries c now r) = s_recurrenceRule r"
  "s_nextDueDate (advanceSeries c now r) = c"
  "s_active (advanceSeries c now r) = s_active r"
  "s_deletedAt (advanceSeries c now r) = s_deletedAt r"
  "s_createdAt (advanceSeries c now r) = s_createdAt r"
  "s_updatedAt (advanceSeries c now r) = now"
  by (simp_all add: advanceSeries_def)

section \<open>The migration loop\<close>

lemma migrateRow_fields:
  assumes "t_recurrenceType row \<noteq> RNone"
  shows "tasks (migrateRow nxt gen today now row d) =
           map (\<lambda>t. if t_id t = t_id row then linkToSeries (gen (idSeq d)) now row t else t) (tasks d)"
    and "recurrenceSeries (migrateRow nxt gen today now row d) =
           recurrenceSeries d @ [seriesValues (gen (idSeq d)) nxt today now row]"
    and "idSeq (migrateRow nxt gen today now row d) = Suc (idSeq d)"
    and "projects (migrateRow nxt gen today now row d) = projects d"
  using assms by (simp_all add: migrateRow_def Let_def)

lemma migrateRows_idSeq:
  "\<forall>r\<in>set rows. t_recurrenceType r \<noteq> RNone \<Longrightarrow>
   idSeq (migrateRows nxt gen today now rows d) = idSeq d + length rows"
  by (induction rows arbitrary: d) (simp_all add: migrateRow_fields)

lemma migrateRows_projects:
  "\<forall>r\<in>set rows. t_recurrenceType r \<noteq> RNone \<Longrightarrow>
   projects (migrateRows nxt gen today now rows d) = projects d"
  by (induction rows arbitrary: d) (simp_all add: migrateRow_fields)

lemma migrateRows_series:
  "\<forall>r\<in>set rows. t_recurrenceType r \<noteq> RNone \<Longrightarrow>
   recurrenceSeries (migrateRows nxt gen today now rows d) =
     recurrenceSeries d @
     map (\<lambda>k. seriesValues (gen (idSeq d + k)) nxt today now (rows ! k)) [0..<length rows]"
proof (induction rows arbitrary: d)
  case Nil
  then show ?case by simp
next
  case (Cons row rows)
  have "map (\<lambda>k. seriesValues (gen (idSeq d + k)) nxt today now ((row # rows) ! k)) [0..<length (row # rows)]
        = seriesValues (gen (idSeq d)) nxt today now row #
          map (\<lambda>k. seriesValues (gen (Suc (idSeq d) + k)) nxt today now (rows ! k)) [0..<length rows]"
    by (simp add: upt_conv_Cons map_Suc_upt [symmetric] del: upt_Suc)
  with Cons show ?case
    by (simp add: migrateRow_fields)
qed

lemma migrateRows_tasks_length:
  "\<forall>r\<in>set rows. t_recurrenceType r \<noteq> RNone \<Longrightarrow>
   length (tasks (migrateRows nxt gen today now rows d)) = length (tasks d)"
  by (induction rows arbitrary: d) (simp_all add: migrateRow_fields)

text \<open>Each task row after the loop: patched by a row of its id, or untouched.\<close>

lemma migrateRows_tasks_nth:
  assumes "\<forall>r\<in>set rows. t_recurrenceType r \<noteq> RNone" and "i < length (tasks d)"
  shows "if t_id (tasks d ! i) \<in> t_id ` set rows
         then \<exists>k<length rows. t_id (rows ! k) = t_id (tasks d ! i) \<and>
                tasks (migrateRows nxt gen today now rows d) ! i =
                  linkToSeries (gen (idSeq d + k)) now (rows ! k) (tasks d ! i)
         else tasks (migrateRows nxt gen today now rows d) ! i = tasks d ! i"
  using assms
proof (induction rows arbitrary: d)
  case Nil
  then show ?case by simp
next
  case (Cons row rows)
  let ?d1 = "migrateRow nxt gen today now row d"
  let ?t = "tasks d ! i"
  have ty: "t_recurrenceType row \<noteq> RNone" and tys: "\<forall>r\<in>set rows. t_recurrenceType r \<noteq> RNone"
    using Cons.prems(1) by simp_all
  have i1: "i < length (tasks ?d1)"
    using Cons.prems(2) by (simp add: migrateRow_fields [OF ty])
  have t1: "tasks ?d1 ! i = (if t_id ?t = t_id row then linkToSeries (gen (idSeq d)) now row ?t else ?t)"
    using Cons.prems(2) by (simp add: migrateRow_fields [OF ty])
  have id1: "t_id (tasks ?d1 ! i) = t_id ?t"
    by (simp add: t1)
  have seq1: "idSeq ?d1 = Suc (idSeq d)"
    by (simp add: migrateRow_fields [OF ty])
  note IH = Cons.IH [OF tys i1, unfolded id1 seq1]
  show ?case
  proof (cases "t_id ?t \<in> t_id ` set rows")
    case True
    with IH obtain k where k: "k < length rows" "t_id (rows ! k) = t_id ?t"
      "tasks (migrateRows nxt gen today now rows ?d1) ! i =
         linkToSeries (gen (Suc (idSeq d) + k)) now (rows ! k) (tasks ?d1 ! i)"
      by auto
    have "tasks (migrateRows nxt gen today now (row # rows) d) ! i =
            linkToSeries (gen (idSeq d + Suc k)) now ((row # rows) ! Suc k) ?t"
      using k(3) by (simp add: t1)
    moreover have "Suc k < length (row # rows)" "t_id ((row # rows) ! Suc k) = t_id ?t"
      using k by simp_all
    ultimately have "\<exists>k<length (row # rows). t_id ((row # rows) ! k) = t_id ?t \<and>
        tasks (migrateRows nxt gen today now (row # rows) d) ! i =
          linkToSeries (gen (idSeq d + k)) now ((row # rows) ! k) ?t"
      by blast
    moreover have "t_id ?t \<in> t_id ` set (row # rows)"
      using True by simp
    ultimately show ?thesis by simp
  next
    case False
    with IH have same: "tasks (migrateRows nxt gen today now rows ?d1) ! i = tasks ?d1 ! i"
      by simp
    show ?thesis
    proof (cases "t_id ?t = t_id row")
      case True
      have "tasks (migrateRows nxt gen today now (row # rows) d) ! i =
              linkToSeries (gen (idSeq d + 0)) now ((row # rows) ! 0) ?t"
        using same True by (simp add: t1)
      moreover have "0 < length (row # rows)" "t_id ((row # rows) ! 0) = t_id ?t"
        using True by simp_all
      ultimately have "\<exists>k<length (row # rows). t_id ((row # rows) ! k) = t_id ?t \<and>
        tasks (migrateRows nxt gen today now (row # rows) d) ! i =
          linkToSeries (gen (idSeq d + k)) now ((row # rows) ! k) ?t"
        by blast
      moreover have "t_id ?t \<in> t_id ` set (row # rows)"
        using True by simp
      ultimately show ?thesis by simp
    next
      case neq: False
      have "t_id ?t \<notin> t_id ` set (row # rows)"
        using False neq by simp
      moreover have "tasks (migrateRows nxt gen today now (row # rows) d) ! i = ?t"
        using same neq by (simp add: t1)
      ultimately show ?thesis by simp
    qed
  qed
qed

section \<open>Growth of the task table during a pass\<close>

lemma appended_refl: "appended gen now S d d"
  by (simp add: appended_def)

lemma appended_mono: "appended gen now S d d' \<Longrightarrow> S \<subseteq> S' \<Longrightarrow> appended gen now S' d d'"
  unfolding appended_def by blast

lemma appended_trans:
  assumes "appended gen now S d d'" and "appended gen now S d' d''"
  shows "appended gen now S d d''"
proof -
  from assms(1) obtain n1 where n1: "projects d' = projects d" "tasks d' = tasks d @ n1"
    "idSeq d' = idSeq d + length n1"
    "\<forall>j<length n1. \<exists>s\<in>S. \<exists>due. n1 ! j = instanceValues (gen (idSeq d + j)) now s due"
    unfolding appended_def by blast
  from assms(2) obtain n2 where n2: "projects d'' = projects d'" "tasks d'' = tasks d' @ n2"
    "idSeq d'' = idSeq d' + length n2"
    "\<forall>j<length n2. \<exists>s\<in>S. \<exists>due. n2 ! j = instanceValues (gen (idSeq d' + j)) now s due"
    unfolding appended_def by blast
  have "\<exists>s\<in>S. \<exists>due. (n1 @ n2) ! j = instanceValues (gen (idSeq d + j)) now s due"
    if "j < length (n1 @ n2)" for j
  proof (cases "j < length n1")
    case True
    with n1(4) show ?thesis by (simp add: nth_append)
  next
    case False
    then have "j - length n1 < length n2" using that by simp
    with n2(4) obtain s due where "s \<in> S"
      "n2 ! (j - length n1) = instanceValues (gen (idSeq d' + (j - length n1))) now s due"
      by blast
    moreover have "idSeq d' + (j - length n1) = idSeq d + j"
      using False n1(3) by simp
    ultimately show ?thesis using False by (auto simp: nth_append)
  qed
  moreover have "tasks d'' = tasks d @ (n1 @ n2)" "idSeq d'' = idSeq d + length (n1 @ n2)"
    using n1 n2 by simp_all
  moreover have "projects d'' = projects d" using n1 n2 by simp
  ultimately show ?thesis unfolding appended_def by blast
qed

lemma materializeSeries_fields:
  "tasks (materializeSeries gen now s due d) = tasks d @ [instanceValues (gen (idSeq d)) now s due]"
  "recurrenceSeries (materializeSeries gen now s due d) = recurrenceSeries d"
  "projects (materializeSeries gen now s due d) = projects d"
  "idSeq (materializeSeries gen now s due d) = Suc (idSeq d)"
  by (simp_all add: materializeSeries_def)

lemma appended_materialize:
  assumes "s \<in> S"
  shows "appended gen now S d (materializeSeries gen now s due d)"
proof -
  let ?news = "[instanceValues (gen (idSeq d)) now s due]"
  have "tasks (materializeSeries gen now s due d) = tasks d @ ?news"
    "idSeq (materializeSeries gen now s due d) = idSeq d + length ?news"
    by (simp_all add: materializeSeries_fields)
  moreover have "\<forall>j<length ?news. \<exists>s\<in>S. \<exists>due.
      ?news ! j = instanceValues (gen (idSeq d + j)) now s due"
    using assms by auto
  ultimately show ?thesis
    unfolding appended_def by (intro conjI exI [of _ ?news]) (simp_all add: materializeSeries_fields)
qed

lemma catchUp_series:
  "recurrenceSeries (snd (catchUp n nxt gen today now s c d)) = recurrenceSeries d"
  by (induction n arbitrary: c d)
     (simp_all add: materializeSeries_fields Let_def split: option.splits)

lemma catchUp_appended:
  "s \<in> S \<Longrightarrow> appended gen now S d (snd (catchUp n nxt gen today now s c d))"
proof (induction n arbitrary: c d)
  case 0
  show ?case by (simp add: appended_refl)
next
  case (Suc n)
  let ?d1 = "if \<not> hasMaterializedDueDate (s_id s) c d then materializeSeries gen now s c d else d"
  have a1: "appended gen now S d ?d1"
    using Suc.prems by (simp add: appended_refl appended_materialize)
  show ?case
  proof (cases "c > today")
    case True
    then show ?thesis by (simp add: appended_refl)
  next
    case False
    show ?thesis
    proof (cases "nxt c (s_recurrenceType s) (s_recurrenceRule s)")
      case None
      with False a1 show ?thesis by (simp add: Let_def)
    next
      case (Some nx)
      show ?thesis
      proof (cases "nx = [] \<or> nx = c")
        case True
        with False Some a1 show ?thesis by (simp add: Let_def)
      next
        case stop: False
        have "appended gen now S ?d1 (snd (catchUp n nxt gen today now s nx ?d1))"
          by (rule Suc.IH [OF Suc.prems])
        with a1 have "appended gen now S d (snd (catchUp n nxt gen today now s nx ?d1))"
          by (rule appended_trans)
        with False Some stop show ?thesis by (simp add: Let_def)
      qed
    qed
  qed
qed

lemma syncSeries_appended:
  assumes "s \<in> S"
  shows "appended gen now S d (syncSeries nxt gen today now s d)"
proof (cases "s_recurrenceBehavior s = AfterCompletion")
  case True
  then show ?thesis
    using assms by (simp add: syncSeries_def appended_refl appended_materialize)
next
  case False
  obtain c' d' where c: "catchUp 500 nxt gen today now s (s_nextDueDate s) d = (c', d')"
    by (cases "catchUp 500 nxt gen today now s (s_nextDueDate s) d")
  have "appended gen now S d d'"
    using catchUp_appended [OF assms, of gen now d 500 nxt today "s_nextDueDate s"] c by simp
  then have "appended gen now S d (d'\<lparr>recurrenceSeries := rs\<rparr>)" for rs
    by (simp add: appended_def)
  with \<open>appended gen now S d d'\<close> False c show ?thesis
    by (simp add: syncSeries_def)
qed

lemma syncRows_appended:
  "set rows \<subseteq> S \<Longrightarrow> appended gen now S d (syncRows nxt gen today now rows d)"
proof (induction rows arbitrary: d)
  case Nil
  show ?case by (simp add: appended_refl)
next
  case (Cons s rows)
  have "appended gen now S d (syncSeries nxt gen today now s d)"
    using Cons.prems by (simp add: syncSeries_appended)
  moreover have "appended gen now S (syncSeries nxt gen today now s d)
                   (syncRows nxt gen today now rows (syncSeries nxt gen today now s d))"
    using Cons.prems by (intro Cons.IH) simp
  ultimately show ?case by (simp add: appended_trans)
qed

text \<open>The series table during the loop: the ids never change.\<close>

lemma map_s_id_advance:
  "map s_id (map (\<lambda>r. if s_id r = x then advanceSeries c now r else r) rs) = map s_id rs"
  by (induction rs) simp_all

lemma syncSeries_series_ids:
  "map s_id (recurrenceSeries (syncSeries nxt gen today now s d)) = map s_id (recurrenceSeries d)"
proof (cases "s_recurrenceBehavior s = AfterCompletion")
  case True
  then show ?thesis
    by (simp add: syncSeries_def materializeSeries_fields)
next
  case False
  obtain c' d' where c: "catchUp 500 nxt gen today now s (s_nextDueDate s) d = (c', d')"
    by (cases "catchUp 500 nxt gen today now s (s_nextDueDate s) d")
  have "recurrenceSeries d' = recurrenceSeries d"
    using catchUp_series [of 500 nxt gen today now s "s_nextDueDate s" d] c by simp
  with False c show ?thesis
    using map_s_id_advance [of "s_id s" c' now "recurrenceSeries d"]
    by (simp add: syncSeries_def del: map_map)
qed

lemma syncRows_series_ids:
  "map s_id (recurrenceSeries (syncRows nxt gen today now rows d)) = map s_id (recurrenceSeries d)"
  by (induction rows arbitrary: d) (simp_all add: syncSeries_series_ids)

section \<open>Legacy migration\<close>

lemma legacy_rows_typed:
  "\<forall>r\<in>set (filter (isLegacyRow u) ts). t_recurrenceType r \<noteq> RNone"
  by (simp add: isLegacyRow_def)

lemma map_t_id_link:
  "map t_id (map (\<lambda>t. if t_id t = x then linkToSeries c now row t else t) ts) = map t_id ts"
  by (induction ts) simp_all

lemma migrateRows_task_ids:
  "\<forall>r\<in>set rows. t_recurrenceType r \<noteq> RNone \<Longrightarrow>
   map t_id (tasks (migrateRows nxt gen today now rows d)) = map t_id (tasks d)"
proof (induction rows arbitrary: d)
  case Nil
  show ?case by simp
next
  case (Cons row rows)
  then show ?case
    using map_t_id_link [of "t_id row" "gen (idSeq d)" now row "tasks d"]
    by (simp add: migrateRow_fields del: map_map)
qed

lemma migrate_fields:
  "map t_id (tasks (migrateLegacyTaskRecurrencesForUser nxt gen u today now d)) = map t_id (tasks d)"
  "length (tasks (migrateLegacyTaskRecurrencesForUser nxt gen u today now d)) = length (tasks d)"
  "projects (migrateLegacyTaskRecurrencesForUser nxt gen u today now d) = projects d"
  "idSeq (migrateLegacyTaskRecurrencesForUser nxt gen u today now d) =
     idSeq d + length (filter (isLegacyRow u) (tasks d))"
  "recurrenceSeries (migrateLegacyTaskRecurrencesForUser nxt gen u today now d) =
     recurrenceSeries d @
     map (\<lambda>k. seriesValues (gen (idSeq d + k)) nxt today now (filter (isLegacyRow u) (tasks d) ! k))
       [0..<length (filter (isLegacyRow u) (tasks d))]"
  unfolding migrateLegacyTaskRecurrencesForUser_def
  by (simp_all only: migrateRows_task_ids [OF legacy_rows_typed]
        migrateRows_tasks_length [OF legacy_rows_typed] migrateRows_projects [OF legacy_rows_typed]
        migrateRows_idSeq [OF legacy_rows_typed] migrateRows_series [OF legacy_rows_typed])

lemma migrate_task_nth:
  assumes "i < length (tasks d)"
  shows "if isLegacyRow u (tasks d ! i) \<or>
            t_id (tasks d ! i) \<in> t_id ` set (filter (isLegacyRow u) (tasks d))
         then \<exists>k<length (filter (isLegacyRow u) (tasks d)).
                t_id (filter (isLegacyRow u) (tasks d) ! k) = t_id (tasks d ! i) \<and>
                tasks (migrateLegacyTaskRecurrencesForUser nxt gen u today now d) ! i =
                  linkToSeries (gen (idSeq d + k)) now (filter (isLegacyRow u) (tasks d) ! k)
                    (tasks d ! i)
         else tasks (migrateLegacyTaskRecurrencesForUser nxt gen u today now d) ! i = tasks d ! i"
proof -
  have "isLegacyRow u (tasks d ! i) \<Longrightarrow>
        t_id (tasks d ! i) \<in> t_id ` set (filter (isLegacyRow u) (tasks d))"
    using assms by simp
  then have eq: "(isLegacyRow u (tasks d ! i) \<or>
            t_id (tasks d ! i) \<in> t_id ` set (filter (isLegacyRow u) (tasks d))) \<longleftrightarrow>
         t_id (tasks d ! i) \<in> t_id ` set (filter (isLegacyRow u) (tasks d))"
    by blast
  show ?thesis
    unfolding eq migrateLegacyTaskRecurrencesForUser_def
    by (rule migrateRows_tasks_nth [OF legacy_rows_typed assms])
qed

lemma migrate_no_legacy_left:
  assumes "t' \<in> set (tasks (migrateLegacyTaskRecurrencesForUser nxt gen u today now d))"
  shows "\<not> isLegacyRow u t'"
proof -
  let ?d' = "migrateLegacyTaskRecurrencesForUser nxt gen u today now d"
  from assms obtain i where i: "i < length (tasks d)" and t': "t' = tasks ?d' ! i"
    by (auto simp: in_set_conv_nth migrate_fields)
  show ?thesis
  proof (cases "isLegacyRow u (tasks d ! i) \<or>
            t_id (tasks d ! i) \<in> t_id ` set (filter (isLegacyRow u) (tasks d))")
    case True
    with migrate_task_nth [OF i, of u nxt gen today now]
    obtain c row where "t' = linkToSeries c now row (tasks d ! i)"
      unfolding t' by auto
    then show ?thesis by (simp add: isLegacyRow_def)
  next
    case False
    with migrate_task_nth [OF i, of u nxt gen today now]
    have "t' = tasks d ! i" unfolding t' by simp
    with False show ?thesis by simp
  qed
qed

lemma migrate_fixpoint:
  assumes "\<forall>t\<in>set (tasks d). \<not> isLegacyRow u t"
  shows "migrateLegacyTaskRecurrencesForUser nxt gen u today now d = d"
proof -
  have "filter (isLegacyRow u) (tasks d) = []"
    using assms by (simp add: filter_empty_conv)
  then show ?thesis by (simp add: migrateLegacyTaskRecurrencesForUser_def)
qed

lemma migrate_again:
  "foldl (\<lambda>d' run. migrateLegacyTaskRecurrencesForUser nxt gen u (fst run) (snd run) d')
     (migrateLegacyTaskRecurrencesForUser nxt gen u today now d) runs =
   migrateLegacyTaskRecurrencesForUser nxt gen u today now d"
proof (induction runs)
  case Nil
  show ?case by simp
next
  case (Cons run runs)
  have "migrateLegacyTaskRecurrencesForUser nxt gen u (fst run) (snd run)
          (migrateLegacyTaskRecurrencesForUser nxt gen u today now d) =
        migrateLegacyTaskRecurrencesForUser nxt gen u today now d"
    by (rule migrate_fixpoint) (simp add: migrate_no_legacy_left)
  with Cons show ?case by simp
qed

text \<open>
  Claim C5. Migration creates one series for each legacy item it selects; afterwards
  the item carries a series id and the inline kind none, so no task of the user is a
  candidate any more, and any number of further runs (at whatever dates and clock
  readings) leave the store as the first run left it: no further series, no further
  task update.
\<close>

theorem migration_creates_one_series_per_legacy_item_once:
  "length (recurrenceSeries (migrateLegacyTaskRecurrencesForUser nxt gen u today now d)) =
     length (recurrenceSeries d) + length (filter (isLegacyRow u) (tasks d)) \<and>
   (\<forall>i<length (tasks d). isLegacyRow u (tasks d ! i) \<longrightarrow>
      t_recurrenceSeriesId (tasks (migrateLegacyTaskRecurrencesForUser nxt gen u today now d) ! i)
        \<noteq> None \<and>
      t_recurrenceType (tasks (migrateLegacyTaskRecurrencesForUser nxt gen u today now d) ! i)
        = RNone) \<and>
   filter (isLegacyRow u) (tasks (migrateLegacyTaskRecurrencesForUser nxt gen u today now d)) = [] \<and>
   foldl (\<lambda>d' run. migrateLegacyTaskRecurrencesForUser nxt gen u (fst run) (snd run) d')
     (migrateLegacyTaskRecurrencesForUser nxt gen u today now d) runs =
   migrateLegacyTaskRecurrencesForUser nxt gen u today now d"
proof (intro conjI allI impI)
  show "length (recurrenceSeries (migrateLegacyTaskRecurrencesForUser nxt gen u today now d)) =
     length (recurrenceSeries d) + length (filter (isLegacyRow u) (tasks d))"
    by (simp add: migrate_fields)
next
  fix i assume i: "i < length (tasks d)" and leg: "isLegacyRow u (tasks d ! i)"
  with migrate_task_nth [OF i, of u nxt gen today now]
  obtain c row where
    "tasks (migrateLegacyTaskRecurrencesForUser nxt gen u today now d) ! i =
       linkToSeries c now row (tasks d ! i)"
    by auto
  then show "t_recurrenceSeriesId
        (tasks (migrateLegacyTaskRecurrencesForUser nxt gen u today now d) ! i) \<noteq> None"
    and "t_recurrenceType
        (tasks (migrateLegacyTaskRecurrencesForUser nxt gen u today now d) ! i) = RNone"
    by simp_all
next
  show "filter (isLegacyRow u)
      (tasks (migrateLegacyTaskRecurrencesForUser nxt gen u today now d)) = []"
    by (simp add: filter_empty_conv migrate_no_legacy_left)
next
  show "foldl (\<lambda>d' run. migrateLegacyTaskRecurrencesForUser nxt gen u (fst run) (snd run) d')
     (migrateLegacyTaskRecurrencesForUser nxt gen u today now d) runs =
   migrateLegacyTaskRecurrencesForUser nxt gen u today now d"
    by (rule migrate_again)
qed

lemmas sync_defs =
  syncRecurrenceSeriesForUser_def migrateLegacyTaskRecurrencesForUser_def isLegacyRow_def
  migrateRow_def seriesValues_def linkToSeries_def legacyNextDueDate_def isDueSeries_def
  syncSeries_def hasOutstandingInstance_def hasMaterializedDueDate_def materializeSeries_def
  instanceValues_def advanceSeries_def Let_def

lemma addDays_numeral:
  "addDays (numeral k) x = addDays (pred_numeral k) (addDay x)"
  "addDays 1 x = addDay x"
  by (simp_all add: numeral_eq_Suc)

lemmas date_defs =
  getNextTaskRecurrenceDate_def daysInMonth_def isLeapYear_def digitVal_def clampDay_def
  pad2_def pad4_def digitChar_def addDays_numeral isDigit_def

lemmas example_defs =
  exampleDb_def exampleTask_def exampleSeries_def exampleGen_def exampleNext_def


lemma exampleDb_wellFormed: "wellFormed exampleGen exampleDb"
proof -
  have "inj exampleGen"
    by (rule injI) (simp add: exampleGen_def)
  then have "inj_on exampleGen {idSeq exampleDb..}"
    by (rule inj_on_subset) simp
  moreover have "exampleGen k \<noteq> [] \<and> (\<forall>t\<in>set (tasks exampleDb). t_id t \<noteq> exampleGen k) \<and>
      (\<forall>s\<in>set (recurrenceSeries exampleDb). s_id s \<noteq> exampleGen k)" for k
    by (simp add: exampleGen_def exampleDb_def exampleTask_def exampleSeries_def)
  ultimately show ?thesis
    by (simp add: wellFormed_def) (simp add: exampleDb_def exampleTask_def exampleSeries_def)
qed

lemma legacyNextDueDate_eq:
  "legacyNextDueDate nxt today t =
     (let dueAnchor = (if isIsoDate (t_dueDate t) then the (t_dueDate t) else today)
      in if t_status t = Done
         then (case nxt (max dueAnchor today) (t_recurrenceType t) (t_recurrenceRule t) of
                 Some n \<Rightarrow> n
               | None \<Rightarrow> max dueAnchor today)
         else dueAnchor)"
proof -
  have m: "(if a > today then a else today) = max a today" for a :: string
    by (auto simp: max_def)
  show ?thesis
    unfolding legacyNextDueDate_def Let_def m
    by (cases "t_dueDate t") (simp_all split: option.splits)
qed

lemma wellFormed_task_id_inj:
  assumes "wellFormed gen d" and "t \<in> set (tasks d)" and "t' \<in> set (tasks d)"
    and "t_id t = t_id t'"
  shows "t = t'"
proof -
  from assms(1) have "distinct (map t_id (tasks d))"
    by (simp add: wellFormed_def)
  then have "inj_on t_id (set (tasks d))"
    by (simp add: distinct_map)
  with assms(2-4) show ?thesis
    by (auto dest: inj_onD)
qed


section \<open>Materialized instances\<close>

lemma catchUp_numeral:
  "catchUp (numeral k) nxt gen today now s c d =
     (if c > today then (c, d)
      else case nxt c (s_recurrenceType s) (s_recurrenceRule s) of
             None \<Rightarrow>
               (c, if \<not> hasMaterializedDueDate (s_id s) c d
                   then materializeSeries gen now s c d else d)
           | Some nx \<Rightarrow>
               if nx = [] \<or> nx = c
               then (c, if \<not> hasMaterializedDueDate (s_id s) c d
                        then materializeSeries gen now s c d else d)
               else catchUp (pred_numeral k) nxt gen today now s nx
                      (if \<not> hasMaterializedDueDate (s_id s) c d
                       then materializeSeries gen now s c d else d))"
  by (simp add: numeral_eq_Suc Let_def)

lemma sync_tasks_split:
  "\<exists>news. tasks (syncRecurrenceSeriesForUser nxt gen u today now d) =
            tasks (migrateLegacyTaskRecurrencesForUser nxt gen u today now d) @ news \<and>
          (\<forall>t\<in>set news. \<exists>s\<in>set (recurrenceSeries
                 (migrateLegacyTaskRecurrencesForUser nxt gen u today now d)). \<exists>i due.
              isDueSeries u today s \<and> t = instanceValues i now s due)"
proof -
  let ?d1 = "migrateLegacyTaskRecurrencesForUser nxt gen u today now d"
  let ?rows = "filter (isDueSeries u today) (recurrenceSeries ?d1)"
  have "appended gen now (set ?rows) ?d1 (syncRows nxt gen today now ?rows ?d1)"
    by (rule syncRows_appended) simp
  then obtain news where news: "tasks (syncRows nxt gen today now ?rows ?d1) = tasks ?d1 @ news"
    "\<forall>j<length news. \<exists>s\<in>set ?rows. \<exists>due.
       news ! j = instanceValues (gen (idSeq ?d1 + j)) now s due"
    unfolding appended_def by blast
  have "\<exists>s\<in>set (recurrenceSeries ?d1). \<exists>i due. isDueSeries u today s \<and> t = instanceValues i now s due"
    if "t \<in> set news" for t
  proof -
    from that obtain j where "j < length news" "t = news ! j"
      by (auto simp: in_set_conv_nth)
    with news(2) obtain s due where "s \<in> set ?rows"
      "t = instanceValues (gen (idSeq ?d1 + j)) now s due"
      by blast
    then show ?thesis by auto
  qed
  with news(1) show ?thesis
    by (simp add: syncRecurrenceSeriesForUser_def Let_def)
qed

text \<open>
  Claim C10. The task rows a reconciliation pass adds (the rows after the ones the
  table held before; the rows before keep their ids) are created with inline kind none,
  behaviour after-completion, no rule, no \<open>recurrenceProcessedAt\<close>, status open and the
  id of a due series of the user in \<open>recurrenceSeriesId\<close>. So none of them is a
  candidate of the legacy migration, nor of the rollover's bulk reopen, for any user
  and any date.
\<close>

theorem materialized_instances_are_plain_open_tasks:
  "map t_id (take (length (tasks d)) (tasks (syncRecurrenceSeriesForUser nxt gen u today now d))) =
     map t_id (tasks d) \<and>
   (\<forall>t\<in>set (drop (length (tasks d)) (tasks (syncRecurrenceSeriesForUser nxt gen u today now d))).
      t_recurrenceType t = RNone \<and> t_recurrenceBehavior t = AfterCompletion \<and>
      t_recurrenceRule t = None \<and> t_recurrenceProcessedAt t = None \<and> t_status t = Open \<and>
      (\<exists>s\<in>set (recurrenceSeries (migrateLegacyTaskRecurrencesForUser nxt gen u today now d)).
         isDueSeries u today s \<and> t_recurrenceSeriesId t = Some (s_id s)) \<and>
      (\<forall>u'. \<not> isLegacyRow u' t) \<and> (\<forall>u' today'. \<not> isDueRecurringTask u' today' t))"
proof -
  let ?d1 = "migrateLegacyTaskRecurrencesForUser nxt gen u today now d"
  from sync_tasks_split [of nxt gen u today now d]
  obtain news where news: "tasks (syncRecurrenceSeriesForUser nxt gen u today now d) = tasks ?d1 @ news"
    "\<forall>t\<in>set news. \<exists>s\<in>set (recurrenceSeries ?d1). \<exists>i due.
        isDueSeries u today s \<and> t = instanceValues i now s due"
    by blast
  have len: "length (tasks ?d1) = length (tasks d)"
    by (rule migrate_fields)
  have tk: "take (length (tasks d)) (tasks (syncRecurrenceSeriesForUser nxt gen u today now d)) = tasks ?d1"
    and dr: "drop (length (tasks d)) (tasks (syncRecurrenceSeriesForUser nxt gen u today now d)) = news"
    using len by (simp_all add: news(1))
  have "t_recurrenceType t = RNone \<and> t_recurrenceBehavior t = AfterCompletion \<and>
      t_recurrenceRule t = None \<and> t_recurrenceProcessedAt t = None \<and> t_status t = Open \<and>
      (\<exists>s\<in>set (recurrenceSeries ?d1). isDueSeries u today s \<and> t_recurrenceSeriesId t = Some (s_id s)) \<and>
      (\<forall>u'. \<not> isLegacyRow u' t) \<and> (\<forall>u' today'. \<not> isDueRecurringTask u' today' t)"
    if "t \<in> set news" for t
  proof -
    from news(2) that obtain s i due where s: "s \<in> set (recurrenceSeries ?d1)"
      "isDueSeries u today s" "t = instanceValues i now s due"
      by blast
    have "\<exists>s\<in>set (recurrenceSeries ?d1). isDueSeries u today s \<and> t_recurrenceSeriesId t = Some (s_id s)"
      using s by auto
    then show ?thesis
      by (simp add: s(3) isLegacyRow_def isDueRecurringTask_def)
  qed
  then show ?thesis
    unfolding tk dr by (simp add: migrate_fields)
qed

section \<open>The example store, evaluated\<close>

lemma example_migration:
  "map t_recurrenceSeriesId (tasks (migrateLegacyTaskRecurrencesForUser exampleNext exampleGen
      ''alice'' ''2024-05-10'' ''2024-05-10T06:00:00.000Z'' exampleDb)) =
     [Some ''r'', Some ''r+'', None]"
  "map t_recurrenceType (tasks (migrateLegacyTaskRecurrencesForUser exampleNext exampleGen
      ''alice'' ''2024-05-10'' ''2024-05-10T06:00:00.000Z'' exampleDb)) = [RNone, RNone, RNone]"
  "map s_id (recurrenceSeries (migrateLegacyTaskRecurrencesForUser exampleNext exampleGen
      ''alice'' ''2024-05-10'' ''2024-05-10T06:00:00.000Z'' exampleDb)) =
     [''s0'', ''s1'', ''r'', ''r+'']"
  "map s_nextDueDate (recurrenceSeries (migrateLegacyTaskRecurrencesForUser exampleNext
      exampleGen ''alice'' ''2024-05-10'' ''2024-05-10T06:00:00.000Z'' exampleDb)) =
     [''2024-05-10'', ''2024-05-08'', ''2024-05-01'', ''2024-06-10'']"
  by (simp_all add: sync_defs date_defs example_defs)

lemma example_sync:
  "map (\<lambda>t. (t_id t, t_dueDate t, t_status t, t_recurrenceSeriesId t))
     (tasks (syncRecurrenceSeriesForUser exampleNext exampleGen ''alice'' ''2024-05-10''
        ''2024-05-10T06:00:00.000Z'' exampleDb)) =
   [(''t0'', Some ''2024-05-01'', Open, Some ''r''),
    (''t1'', Some ''2024-04-30'', Done, Some ''r+''),
    (''t2'', None, Open, None),
    (''r++'', Some ''2024-05-10'', Open, Some ''s0''),
    (''r+++'', Some ''2024-05-08'', Open, Some ''s1''),
    (''r++++'', Some ''2024-05-09'', Open, Some ''s1''),
    (''r+++++'', Some ''2024-05-10'', Open, Some ''s1'')] \<and>
   map (\<lambda>s. (s_id s, s_nextDueDate s))
     (recurrenceSeries (syncRecurrenceSeriesForUser exampleNext exampleGen ''alice''
        ''2024-05-10'' ''2024-05-10T06:00:00.000Z'' exampleDb)) =
   [(''s0'', ''2024-05-10''), (''s1'', ''2024-05-11''), (''r'', ''2024-05-01''),
    (''r+'', ''2024-06-10'')]"
  by (simp add: sync_defs date_defs example_defs catchUp_numeral)

theorem migration_creates_one_series_per_legacy_item_once_witness:
  "length (recurrenceSeries (migrateLegacyTaskRecurrencesForUser exampleNext exampleGen ''alice''
      ''2024-05-10'' ''2024-05-10T06:00:00.000Z'' exampleDb)) = 4 \<and>
   isLegacyRow ''alice'' (tasks exampleDb ! 0) \<and>
   t_recurrenceSeriesId (tasks (migrateLegacyTaskRecurrencesForUser exampleNext exampleGen ''alice''
      ''2024-05-10'' ''2024-05-10T06:00:00.000Z'' exampleDb) ! 0) \<noteq> None \<and>
   t_recurrenceType (tasks (migrateLegacyTaskRecurrencesForUser exampleNext exampleGen ''alice''
      ''2024-05-10'' ''2024-05-10T06:00:00.000Z'' exampleDb) ! 0) = RNone \<and>
   filter (isLegacyRow ''alice'') (tasks (migrateLegacyTaskRecurrencesForUser exampleNext
      exampleGen ''alice'' ''2024-05-10'' ''2024-05-10T06:00:00.000Z'' exampleDb)) = [] \<and>
   foldl (\<lambda>d' run. migrateLegacyTaskRecurrencesForUser exampleNext exampleGen ''alice''
            (fst run) (snd run) d')
     (migrateLegacyTaskRecurrencesForUser exampleNext exampleGen ''alice''
        ''2024-05-10'' ''2024-05-10T06:00:00.000Z'' exampleDb)
     [(''2024-05-10'', ''2024-05-10T06:00:01.000Z''), (''2024-06-01'', ''2024-06-01T09:30:00.000Z'')] =
   migrateLegacyTaskRecurrencesForUser exampleNext exampleGen ''alice''
     ''2024-05-10'' ''2024-05-10T06:00:00.000Z'' exampleDb"
proof -
  note spec = migration_creates_one_series_per_legacy_item_once
    [of exampleNext exampleGen "''alice''" "''2024-05-10''" "''2024-05-10T06:00:00.000Z''" exampleDb
        "[(''2024-05-10'', ''2024-05-10T06:00:01.000Z''), (''2024-06-01'', ''2024-06-01T09:30:00.000Z'')]"]
  have before: "length (recurrenceSeries exampleDb) = 2"
    "length (filter (isLegacyRow ''alice'') (tasks exampleDb)) = 2"
    "0 < length (tasks exampleDb)"
    by (simp_all add: exampleDb_def exampleTask_def isLegacyRow_def)
  have leg: "isLegacyRow ''alice'' (tasks exampleDb ! 0)"
    by (simp add: exampleDb_def exampleTask_def isLegacyRow_def)
  from spec have "length (recurrenceSeries (migrateLegacyTaskRecurrencesForUser exampleNext exampleGen ''alice''
      ''2024-05-10'' ''2024-05-10T06:00:00.000Z'' exampleDb)) = 
      length (recurrenceSeries exampleDb) + length (filter (isLegacyRow ''alice'') (tasks exampleDb))"
    by (rule conjunct1)
  then have c1: "length (recurrenceSeries (migrateLegacyTaskRecurrencesForUser exampleNext exampleGen ''alice''
      ''2024-05-10'' ''2024-05-10T06:00:00.000Z'' exampleDb)) = 4"
    by (simp add: before)
  from spec have "\<forall>i<length (tasks exampleDb). isLegacyRow ''alice'' (tasks exampleDb ! i) \<longrightarrow>
      t_recurrenceSeriesId (tasks (migrateLegacyTaskRecurrencesForUser exampleNext exampleGen ''alice''
      ''2024-05-10'' ''2024-05-10T06:00:00.000Z'' exampleDb) ! i) \<noteq> None \<and>
      t_recurrenceType (tasks (migrateLegacyTaskRecurrencesForUser exampleNext exampleGen ''alice''
      ''2024-05-10'' ''2024-05-10T06:00:00.000Z'' exampleDb) ! i) = RNone"
    by (rule conjunct1 [OF conjunct2])
  with before(3) leg have c2: "t_recurrenceSeriesId (tasks (migrateLegacyTaskRecurrencesForUser exampleNext exampleGen ''alice''
      ''2024-05-10'' ''2024-05-10T06:00:00.000Z'' exampleDb) ! 0) \<noteq> None \<and>
      t_recurrenceType (tasks (migrateLegacyTaskRecurrencesForUser exampleNext exampleGen ''alice''
      ''2024-05-10'' ''2024-05-10T06:00:00.000Z'' exampleDb) ! 0) = RNone"
    by blast
  from spec have c3: "filter (isLegacyRow ''alice'') (tasks (migrateLegacyTaskRecurrencesForUser exampleNext
      exampleGen ''alice'' ''2024-05-10'' ''2024-05-10T06:00:00.000Z'' exampleDb)) = [] \<and>
   foldl (\<lambda>d' run. migrateLegacyTaskRecurrencesForUser exampleNext exampleGen ''alice''
            (fst run) (snd run) d')
     (migrateLegacyTaskRecurrencesForUser exampleNext exampleGen ''alice''
        ''2024-05-10'' ''2024-05-10T06:00:00.000Z'' exampleDb)
     [(''2024-05-10'', ''2024-05-10T06:00:01.000Z''), (''2024-06-01'', ''2024-06-01T09:30:00.000Z'')] =
   migrateLegacyTaskRecurrencesForUser exampleNext exampleGen ''alice''
     ''2024-05-10'' ''2024-05-10T06:00:00.000Z'' exampleDb"
    by (rule conjunct2 [OF conjunct2])
  from c1 leg c2 c3 show ?thesis
    by blast
qed


theorem materialized_instances_are_plain_open_tasks_witness:
  "length (tasks exampleDb) = 3 \<and>
   length (tasks (syncRecurrenceSeriesForUser exampleNext exampleGen ''alice'' ''2024-05-10''
      ''2024-05-10T06:00:00.000Z'' exampleDb)) = 7 \<and>
   t_recurrenceType (tasks (syncRecurrenceSeriesForUser exampleNext exampleGen ''alice''
      ''2024-05-10'' ''2024-05-10T06:00:00.000Z'' exampleDb) ! 3) = RNone \<and>
   t_recurrenceBehavior (tasks (syncRecurrenceSeriesForUser exampleNext exampleGen ''alice''
      ''2024-05-10'' ''2024-05-10T06:00:00.000Z'' exampleDb) ! 3) = AfterCompletion \<and>
   t_recurrenceRule (tasks (syncRecurrenceSeriesForUser exampleNext exampleGen ''alice''
      ''2024-05-10'' ''2024-05-10T06:00:00.000Z'' exampleDb) ! 3) = None \<and>
   t_recurrenceProcessedAt (tasks (syncRecurrenceSeriesForUser exampleNext exampleGen ''alice''
      ''2024-05-10'' ''2024-05-10T06:00:00.000Z'' exampleDb) ! 3) = None \<and>
   t_status (tasks (syncRecurrenceSeriesForUser exampleNext exampleGen ''alice''
      ''2024-05-10'' ''2024-05-10T06:00:00.000Z'' exampleDb) ! 3) = Open \<and>
   t_recurrenceSeriesId (tasks (syncRecurrenceSeriesForUser exampleNext exampleGen ''alice''
      ''2024-05-10'' ''2024-05-10T06:00:00.000Z'' exampleDb) ! 3) = Some ''s0'' \<and>
   \<not> isLegacyRow ''alice'' (tasks (syncRecurrenceSeriesForUser exampleNext exampleGen ''alice''
      ''2024-05-10'' ''2024-05-10T06:00:00.000Z'' exampleDb) ! 3) \<and>
   \<not> isDueRecurringTask ''alice'' ''2024-05-11'' (tasks (syncRecurrenceSeriesForUser exampleNext
      exampleGen ''alice'' ''2024-05-10'' ''2024-05-10T06:00:00.000Z'' exampleDb) ! 3)"
proof -
  let ?T = "tasks (syncRecurrenceSeriesForUser exampleNext exampleGen ''alice'' ''2024-05-10''
      ''2024-05-10T06:00:00.000Z'' exampleDb)"
  note spec = materialized_instances_are_plain_open_tasks
    [of exampleDb exampleNext exampleGen "''alice''" "''2024-05-10''" "''2024-05-10T06:00:00.000Z''"]
  have len: "length (tasks exampleDb) = 3"
    by (simp add: exampleDb_def)
  have lenT: "length ?T = 7"
    using example_sync [THEN conjunct1, THEN arg_cong [where f = length]] by simp
  have link: "t_recurrenceSeriesId (?T ! 3) = Some ''s0''"
    using example_sync [THEN conjunct1, THEN arg_cong [where f = "\<lambda>xs. snd (snd (snd (xs ! 3)))"]]
      lenT by simp
  have "drop (length (tasks exampleDb)) ?T ! 0 \<in> set (drop (length (tasks exampleDb)) ?T)"
    by (rule nth_mem) (simp add: len lenT)
  then have "?T ! 3 \<in> set (drop (length (tasks exampleDb)) ?T)"
    by (simp add: len lenT)
  with spec have "t_recurrenceType (?T ! 3) = RNone \<and> t_recurrenceBehavior (?T ! 3) = AfterCompletion \<and>
      t_recurrenceRule (?T ! 3) = None \<and> t_recurrenceProcessedAt (?T ! 3) = None \<and>
      t_status (?T ! 3) = Open \<and>
      (\<forall>u'. \<not> isLegacyRow u' (?T ! 3)) \<and> (\<forall>u' today'. \<not> isDueRecurringTask u' today' (?T ! 3))"
    by blast
  with len lenT link show ?thesis
    by blast
qed


section \<open>The series table during a pass\<close>

lemma syncSeries_series:
  "recurrenceSeries (syncSeries nxt gen today now s d) =
     (if s_recurrenceBehavior s \<noteq> AfterCompletion \<and>
         fst (catchUp 500 nxt gen today now s (s_nextDueDate s) d) \<noteq> s_nextDueDate s
      then map (\<lambda>r. if s_id r = s_id s
                    then advanceSeries (fst (catchUp 500 nxt gen today now s (s_nextDueDate s) d)) now r
                    else r) (recurrenceSeries d)
      else recurrenceSeries d)"
proof (cases "s_recurrenceBehavior s = AfterCompletion")
  case True
  then show ?thesis
    by (simp add: syncSeries_def materializeSeries_fields)
next
  case False
  obtain c' d' where c: "catchUp 500 nxt gen today now s (s_nextDueDate s) d = (c', d')"
    by (cases "catchUp 500 nxt gen today now s (s_nextDueDate s) d")
  have "recurrenceSeries d' = recurrenceSeries d"
    using catchUp_series [of 500 nxt gen today now s "s_nextDueDate s" d] c by simp
  with False c show ?thesis
    by (simp add: syncSeries_def)
qed

lemma syncSeries_series_length:
  "length (recurrenceSeries (syncSeries nxt gen today now s d)) = length (recurrenceSeries d)"
  using syncSeries_series_ids [of nxt gen today now s d, THEN arg_cong [where f = length]]
  by simp

lemma syncRows_series_length:
  "length (recurrenceSeries (syncRows nxt gen today now rows d)) = length (recurrenceSeries d)"
  using syncRows_series_ids [of nxt gen today now rows d, THEN arg_cong [where f = length]]
  by simp

lemma syncSeries_series_nth_same:
  assumes "i < length (recurrenceSeries d)"
    and "s_id s = s_id (recurrenceSeries d ! i) \<longrightarrow> s_recurrenceBehavior s = AfterCompletion"
  shows "recurrenceSeries (syncSeries nxt gen today now s d) ! i = recurrenceSeries d ! i"
  using assms unfolding syncSeries_series by auto

lemma syncRows_series_nth_same:
  assumes "i < length (recurrenceSeries d)"
    and "\<forall>s\<in>set rows. s_id s = s_id (recurrenceSeries d ! i) \<longrightarrow>
           s_recurrenceBehavior s = AfterCompletion"
  shows "recurrenceSeries (syncRows nxt gen today now rows d) ! i = recurrenceSeries d ! i"
  using assms
proof (induction rows arbitrary: d)
  case Nil
  show ?case by simp
next
  case (Cons s rows)
  let ?d2 = "syncSeries nxt gen today now s d"
  have same: "recurrenceSeries ?d2 ! i = recurrenceSeries d ! i"
    using Cons.prems by (intro syncSeries_series_nth_same) simp_all
  have "recurrenceSeries (syncRows nxt gen today now rows ?d2) ! i = recurrenceSeries ?d2 ! i"
    using Cons.prems by (intro Cons.IH) (simp_all add: syncSeries_series_length same)
  with same show ?case by simp
qed

section \<open>The invariants are kept\<close>

lemma inj_on_from:
  assumes "inj_on gen {n..}" and "gen a = gen b" and "n \<le> a" and "n \<le> b"
  shows "a = (b::nat)"
  using assms by (auto dest: inj_onD)

lemma wellFormedD:
  assumes "wellFormed gen d"
  shows "distinct (map t_id (tasks d))" and "distinct (map s_id (recurrenceSeries d))"
    and "\<And>t. t \<in> set (tasks d) \<Longrightarrow> t_id t \<noteq> []"
    and "inj_on gen {idSeq d..}"
    and "\<And>k. idSeq d \<le> k \<Longrightarrow> gen k \<noteq> []"
    and "\<And>k t. idSeq d \<le> k \<Longrightarrow> t \<in> set (tasks d) \<Longrightarrow> t_id t \<noteq> gen k"
    and "\<And>k s. idSeq d \<le> k \<Longrightarrow> s \<in> set (recurrenceSeries d) \<Longrightarrow> s_id s \<noteq> gen k"
  using assms by (simp_all add: wellFormed_def)

lemma wellFormedI:
  assumes "distinct (map t_id (tasks d))" and "distinct (map s_id (recurrenceSeries d))"
    and "\<And>t. t \<in> set (tasks d) \<Longrightarrow> t_id t \<noteq> []"
    and "inj_on gen {idSeq d..}"
    and "\<And>k. idSeq d \<le> k \<Longrightarrow> gen k \<noteq> []"
    and "\<And>k t. idSeq d \<le> k \<Longrightarrow> t \<in> set (tasks d) \<Longrightarrow> t_id t \<noteq> gen k"
    and "\<And>k s. idSeq d \<le> k \<Longrightarrow> s \<in> set (recurrenceSeries d) \<Longrightarrow> s_id s \<noteq> gen k"
  shows "wellFormed gen d"
  using assms unfolding wellFormed_def by blast

lemma wellFormed_migrate:
  assumes "wellFormed gen d"
  shows "wellFormed gen (migrateLegacyTaskRecurrencesForUser nxt gen u today now d)"
proof (rule wellFormedI)
  let ?d' = "migrateLegacyTaskRecurrencesForUser nxt gen u today now d"
  let ?rows = "filter (isLegacyRow u) (tasks d)"
  let ?n = "length ?rows"
  note wf = wellFormedD [OF assms]
  have ids: "map s_id (recurrenceSeries ?d') =
               map s_id (recurrenceSeries d) @ map (\<lambda>k. gen (idSeq d + k)) [0..<?n]"
    by (simp add: migrate_fields comp_def)
  have mem: "\<exists>j. s_id s = gen (idSeq d + j)"
    if "s \<in> set (recurrenceSeries ?d')" "s \<notin> set (recurrenceSeries d)" for s
  proof -
    from that obtain j where "s = seriesValues (gen (idSeq d + j)) nxt today now (?rows ! j)"
      unfolding migrate_fields(5) by auto
    then show ?thesis by auto
  qed
  have tmem: "\<exists>t0\<in>set (tasks d). t_id t0 = t_id t" if "t \<in> set (tasks ?d')" for t
  proof -
    from that have "t_id t \<in> set (map t_id (tasks ?d'))" by simp
    then have "t_id t \<in> set (map t_id (tasks d))" by (simp only: migrate_fields(1))
    then show ?thesis by auto
  qed
  show "distinct (map t_id (tasks ?d'))"
    using wf(1) by (simp add: migrate_fields)
  show "distinct (map s_id (recurrenceSeries ?d'))"
  proof -
    have "inj_on (\<lambda>k. gen (idSeq d + k)) {0..<?n}"
    proof (rule inj_onI)
      fix x y assume "gen (idSeq d + x) = gen (idSeq d + y)"
      with wf(4) have "idSeq d + x = idSeq d + y"
        by (rule inj_on_from) simp_all
      then show "x = y" by simp
    qed
    then have "distinct (map (\<lambda>k. gen (idSeq d + k)) [0..<?n])"
      by (simp add: distinct_map)
    moreover have "x \<notin> set (map (\<lambda>k. gen (idSeq d + k)) [0..<?n])"
      if "x \<in> set (map s_id (recurrenceSeries d))" for x
    proof
      assume "x \<in> set (map (\<lambda>k. gen (idSeq d + k)) [0..<?n])"
      then obtain j where j: "x = gen (idSeq d + j)" by auto
      from that obtain s where s: "s \<in> set (recurrenceSeries d)" "x = s_id s" by auto
      from wf(7) [of "idSeq d + j" s] s j show False by simp
    qed
    then have "set (map s_id (recurrenceSeries d)) \<inter>
               set (map (\<lambda>k. gen (idSeq d + k)) [0..<?n]) = {}"
      by blast
    ultimately show ?thesis
      unfolding ids using wf(2) by (simp only: distinct_append)
  qed
  show "t_id t \<noteq> []" if "t \<in> set (tasks ?d')" for t
    using tmem [OF that] wf(3) by metis
  show "inj_on gen {idSeq ?d'..}"
    using wf(4) by (rule inj_on_subset) (auto simp: migrate_fields)
  fix k assume "idSeq ?d' \<le> k"
  then have k: "idSeq d + ?n \<le> k" by (simp add: migrate_fields)
  then have k0: "idSeq d \<le> k" by simp
  show "gen k \<noteq> []" using wf(5) [OF k0] .
  show "t_id t \<noteq> gen k" if "t \<in> set (tasks ?d')" for t
    using tmem [OF that] wf(6) [OF k0] by metis
  show "s_id s \<noteq> gen k" if "s \<in> set (recurrenceSeries ?d')" for s
  proof (cases "s \<in> set (recurrenceSeries d)")
    case True
    then show ?thesis by (rule wf(7) [OF k0])
  next
    case False
    with mem [OF that] obtain j where j: "s_id s = gen (idSeq d + j)" by blast
    from that False obtain j' where "j' < ?n" "s = seriesValues (gen (idSeq d + j')) nxt today now (?rows ! j')"
      unfolding migrate_fields(5) by auto
    then have j': "j' < ?n" "s_id s = gen (idSeq d + j')" by simp_all
    show ?thesis
    proof
      assume "s_id s = gen k"
      then have "gen (idSeq d + j') = gen k" using j'(2) by simp
      with wf(4) have "idSeq d + j' = k"
        by (rule inj_on_from) (use k0 in simp_all)
      with j'(1) k show False by simp
    qed
  qed
qed

lemma wellFormed_series_id_inj:
  assumes "wellFormed gen d" and "s \<in> set (recurrenceSeries d)" and "s' \<in> set (recurrenceSeries d)"
    and "s_id s = s_id s'"
  shows "s = s'"
proof -
  from assms(1) have "distinct (map s_id (recurrenceSeries d))"
    by (simp add: wellFormed_def)
  then have "inj_on s_id (set (recurrenceSeries d))"
    by (simp add: distinct_map)
  with assms(2-4) show ?thesis
    by (auto dest: inj_onD)
qed

lemma sync_series_length:
  "length (recurrenceSeries (syncRecurrenceSeriesForUser nxt gen u today now d)) =
   length (recurrenceSeries (migrateLegacyTaskRecurrencesForUser nxt gen u today now d))"
  by (simp add: syncRecurrenceSeriesForUser_def Let_def syncRows_series_length)

lemma migrate_series_nth_old:
  "i < length (recurrenceSeries d) \<Longrightarrow>
   recurrenceSeries (migrateLegacyTaskRecurrencesForUser nxt gen u today now d) ! i =
     recurrenceSeries d ! i"
  by (simp add: migrate_fields nth_append)

text \<open>
  Claim C7. A pass leaves every after-completion series row as it is: the rows the
  store held before the pass, and the rows its migration step created. In particular
  their \<open>nextDueDate\<close> is not advanced, whether an instance was materialized or not.
\<close>

theorem sync_leaves_after_completion_series_unchanged:
  assumes "wellFormed gen d"
  shows "(\<forall>i<length (recurrenceSeries d).
            s_recurrenceBehavior (recurrenceSeries d ! i) = AfterCompletion \<longrightarrow>
            recurrenceSeries (syncRecurrenceSeriesForUser nxt gen u today now d) ! i =
              recurrenceSeries d ! i) \<and>
         (\<forall>i<length (recurrenceSeries (migrateLegacyTaskRecurrencesForUser nxt gen u today now d)).
            s_recurrenceBehavior
              (recurrenceSeries (migrateLegacyTaskRecurrencesForUser nxt gen u today now d) ! i) =
              AfterCompletion \<longrightarrow>
            recurrenceSeries (syncRecurrenceSeriesForUser nxt gen u today now d) ! i =
              recurrenceSeries (migrateLegacyTaskRecurrencesForUser nxt gen u today now d) ! i)"
proof -
  let ?d1 = "migrateLegacyTaskRecurrencesForUser nxt gen u today now d"
  let ?rows = "filter (isDueSeries u today) (recurrenceSeries ?d1)"
  have wf1: "wellFormed gen ?d1"
    using assms by (rule wellFormed_migrate)
  have main: "recurrenceSeries (syncRecurrenceSeriesForUser nxt gen u today now d) ! i =
                recurrenceSeries ?d1 ! i"
    if i: "i < length (recurrenceSeries ?d1)"
      and ac: "s_recurrenceBehavior (recurrenceSeries ?d1 ! i) = AfterCompletion" for i
  proof -
    have "s_recurrenceBehavior s = AfterCompletion"
      if "s \<in> set ?rows" "s_id s = s_id (recurrenceSeries ?d1 ! i)" for s
    proof -
      have "s \<in> set (recurrenceSeries ?d1)" using that(1) by simp
      moreover have "recurrenceSeries ?d1 ! i \<in> set (recurrenceSeries ?d1)"
        using i by simp
      ultimately have "s = recurrenceSeries ?d1 ! i"
        using that(2) by (rule wellFormed_series_id_inj [OF wf1])
      with ac show ?thesis by simp
    qed
    then have "recurrenceSeries (syncRows nxt gen today now ?rows ?d1) ! i = recurrenceSeries ?d1 ! i"
      using i by (intro syncRows_series_nth_same) blast+
    then show ?thesis
      by (simp add: syncRecurrenceSeriesForUser_def Let_def)
  qed
  have old: "recurrenceSeries (syncRecurrenceSeriesForUser nxt gen u today now d) ! i =
               recurrenceSeries d ! i"
    if i: "i < length (recurrenceSeries d)"
      and ac: "s_recurrenceBehavior (recurrenceSeries d ! i) = AfterCompletion" for i
  proof -
    have "i < length (recurrenceSeries ?d1)"
      using i by (simp add: migrate_fields)
    moreover have "recurrenceSeries ?d1 ! i = recurrenceSeries d ! i"
      using i by (rule migrate_series_nth_old)
    ultimately show ?thesis
      using main [of i] ac by simp
  qed
  from main old show ?thesis by blast
qed

section \<open>The cursor never moves back\<close>

lemma catchUp_cursor_ge:
  assumes "\<And>c ty r c'. c \<le> today \<Longrightarrow> nxt c ty r = Some c' \<Longrightarrow> c \<le> c'"
  shows "c \<le> fst (catchUp n nxt gen today now s c d)"
proof (induction n arbitrary: c d)
  case 0
  show ?case by simp
next
  case (Suc n)
  let ?d1 = "if \<not> hasMaterializedDueDate (s_id s) c d then materializeSeries gen now s c d else d"
  show ?case
  proof (cases "c > today")
    case True
    then show ?thesis by simp
  next
    case False
    then have le: "c \<le> today" by simp
    show ?thesis
    proof (cases "nxt c (s_recurrenceType s) (s_recurrenceRule s)")
      case None
      with False show ?thesis by (simp add: Let_def)
    next
      case (Some nx)
      show ?thesis
      proof (cases "nx = [] \<or> nx = c")
        case True
        with False Some show ?thesis by (simp add: Let_def)
      next
        case go: False
        have "c \<le> nx" using assms [OF le Some] .
        also have "nx \<le> fst (catchUp n nxt gen today now s nx ?d1)"
          by (rule Suc.IH)
        finally show ?thesis
          using False Some go by (simp add: Let_def)
      qed
    qed
  qed
qed

lemma syncSeries_nextDueDate_mono:
  assumes "\<And>c ty r c'. c \<le> today \<Longrightarrow> nxt c ty r = Some c' \<Longrightarrow> c \<le> c'"
    and "i < length (recurrenceSeries d)"
    and "s_id (recurrenceSeries d ! i) = s_id s \<longrightarrow>
           s_nextDueDate (recurrenceSeries d ! i) \<le> s_nextDueDate s"
  shows "s_nextDueDate (recurrenceSeries d ! i) \<le>
         s_nextDueDate (recurrenceSeries (syncSeries nxt gen today now s d) ! i)"
proof -
  let ?c = "fst (catchUp 500 nxt gen today now s (s_nextDueDate s) d)"
  have ge: "s_nextDueDate s \<le> ?c"
    using assms(1) by (rule catchUp_cursor_ge)
  show ?thesis
  proof (cases "s_recurrenceBehavior s \<noteq> AfterCompletion \<and> ?c \<noteq> s_nextDueDate s \<and>
                s_id (recurrenceSeries d ! i) = s_id s")
    case True
    then have "recurrenceSeries (syncSeries nxt gen today now s d) ! i =
                 advanceSeries ?c now (recurrenceSeries d ! i)"
      using assms(2) unfolding syncSeries_series by simp
    moreover have "s_nextDueDate (recurrenceSeries d ! i) \<le> ?c"
      using True assms(3) ge by (blast intro: order_trans)
    ultimately show ?thesis by simp
  next
    case False
    then have "recurrenceSeries (syncSeries nxt gen today now s d) ! i = recurrenceSeries d ! i"
      using assms(2) unfolding syncSeries_series by auto
    then show ?thesis by simp
  qed
qed

lemma syncRows_nextDueDate_mono:
  assumes "\<And>c ty r c'. c \<le> today \<Longrightarrow> nxt c ty r = Some c' \<Longrightarrow> c \<le> c'"
    and "distinct (map s_id rows)"
    and "\<forall>s\<in>set rows. \<forall>j<length (recurrenceSeries d).
           s_id (recurrenceSeries d ! j) = s_id s \<longrightarrow>
           s_nextDueDate (recurrenceSeries d ! j) \<le> s_nextDueDate s"
    and "i < length (recurrenceSeries d)"
  shows "s_nextDueDate (recurrenceSeries d ! i) \<le>
         s_nextDueDate (recurrenceSeries (syncRows nxt gen today now rows d) ! i)"
  using assms(2-4)
proof (induction rows arbitrary: d)
  case Nil
  show ?case by simp
next
  case (Cons s rows)
  let ?d2 = "syncSeries nxt gen today now s d"
  have step: "s_nextDueDate (recurrenceSeries d ! i) \<le> s_nextDueDate (recurrenceSeries ?d2 ! i)"
    using assms(1) Cons.prems(3)
  proof (rule syncSeries_nextDueDate_mono)
    show "s_id (recurrenceSeries d ! i) = s_id s \<longrightarrow>
           s_nextDueDate (recurrenceSeries d ! i) \<le> s_nextDueDate s"
      using Cons.prems(2,3) by simp
  qed
  have keep: "\<forall>s'\<in>set rows. \<forall>j<length (recurrenceSeries ?d2).
           s_id (recurrenceSeries ?d2 ! j) = s_id s' \<longrightarrow>
           s_nextDueDate (recurrenceSeries ?d2 ! j) \<le> s_nextDueDate s'"
  proof (intro ballI allI impI)
    fix s' j
    assume s': "s' \<in> set rows" and j: "j < length (recurrenceSeries ?d2)"
      and id: "s_id (recurrenceSeries ?d2 ! j) = s_id s'"
    have j0: "j < length (recurrenceSeries d)"
      using j by (simp add: syncSeries_series_length)
    have "s_id (recurrenceSeries ?d2 ! j) = s_id (recurrenceSeries d ! j)"
      using syncSeries_series_ids [of nxt gen today now s d, THEN arg_cong [where f = "\<lambda>xs. xs ! j"]]
        j j0 by simp
    with id have id0: "s_id (recurrenceSeries d ! j) = s_id s'" by simp
    have "s_id s \<notin> s_id ` set rows"
      using Cons.prems(1) by simp
    then have "s_id s' \<noteq> s_id s"
      using s' by (metis imageI)
    with id0 have "recurrenceSeries ?d2 ! j = recurrenceSeries d ! j"
      using j0 by (intro syncSeries_series_nth_same) simp_all
    moreover have "s_nextDueDate (recurrenceSeries d ! j) \<le> s_nextDueDate s'"
      using Cons.prems(2) s' j0 id0 by simp
    ultimately show "s_nextDueDate (recurrenceSeries ?d2 ! j) \<le> s_nextDueDate s'"
      by simp
  qed
  have "s_nextDueDate (recurrenceSeries ?d2 ! i) \<le>
        s_nextDueDate (recurrenceSeries (syncRows nxt gen today now rows ?d2) ! i)"
    using Cons.prems(1,3) keep by (intro Cons.IH) (simp_all add: syncSeries_series_length)
  with step show ?case
    by (simp add: order_trans)
qed


lemma forwardOnly_forward:
  "forwardOnly nxt c ty r = Some c' \<Longrightarrow> c \<le> c'"
  by (simp add: forwardOnly_def split: option.splits if_splits)

lemma example_sync_forward:
  "map (\<lambda>s. (s_id s, s_nextDueDate s))
     (recurrenceSeries (syncRecurrenceSeriesForUser (forwardOnly exampleNext) exampleGen ''alice''
        ''2024-05-10'' ''2024-05-10T06:00:00.000Z'' exampleDb)) =
   [(''s0'', ''2024-05-10''), (''s1'', ''2024-05-11''), (''r'', ''2024-05-01''),
    (''r+'', ''2024-06-10'')]"
  by (simp add: sync_defs date_defs example_defs catchUp_numeral forwardOnly_def)


theorem sync_leaves_after_completion_series_unchanged_witness:
  "s_recurrenceBehavior (recurrenceSeries exampleDb ! 0) = AfterCompletion \<and>
   recurrenceSeries (syncRecurrenceSeriesForUser exampleNext exampleGen ''alice'' ''2024-05-10''
      ''2024-05-10T06:00:00.000Z'' exampleDb) ! 0 = recurrenceSeries exampleDb ! 0 \<and>
   s_nextDueDate (recurrenceSeries (syncRecurrenceSeriesForUser exampleNext exampleGen ''alice''
      ''2024-05-10'' ''2024-05-10T06:00:00.000Z'' exampleDb) ! 0) = ''2024-05-10'' \<and>
   length (instancesOf ''s0'' exampleDb) = 0 \<and>
   length (instancesOf ''s0'' (syncRecurrenceSeriesForUser exampleNext exampleGen ''alice''
      ''2024-05-10'' ''2024-05-10T06:00:00.000Z'' exampleDb)) = 1"
proof -
  have len: "0 < length (recurrenceSeries exampleDb)"
    and ac: "s_recurrenceBehavior (recurrenceSeries exampleDb ! 0) = AfterCompletion"
    and due: "s_nextDueDate (recurrenceSeries exampleDb ! 0) = ''2024-05-10''"
    and none: "length (instancesOf ''s0'' exampleDb) = 0"
    by (simp_all add: exampleDb_def exampleSeries_def exampleTask_def instancesOf_def)
  note spec = sync_leaves_after_completion_series_unchanged [OF exampleDb_wellFormed,
      where nxt = exampleNext and u = "''alice''" and today = "''2024-05-10''"
        and now = "''2024-05-10T06:00:00.000Z''",
      THEN conjunct1, rule_format, OF len ac]
  have one: "length (instancesOf ''s0'' (syncRecurrenceSeriesForUser exampleNext exampleGen ''alice''
      ''2024-05-10'' ''2024-05-10T06:00:00.000Z'' exampleDb)) = 1"
    using example_sync [THEN conjunct1,
        THEN arg_cong [where f = "\<lambda>xs. length (filter (\<lambda>x. snd (snd (snd x)) = Some ''s0'') xs)"]]
    by (simp add: instancesOf_def filter_map comp_def)
  from spec ac due none one show ?thesis
    by simp
qed


section \<open>The lookups, on stores whose ids are not empty\<close>

lemma find_nonempty_id:
  assumes "\<And>t. t \<in> set ts \<Longrightarrow> t_id t \<noteq> []"
  shows "(case find P ts of None \<Rightarrow> False | Some row \<Rightarrow> t_id row \<noteq> []) \<longleftrightarrow> (\<exists>t\<in>set ts. P t)"
proof (cases "find P ts")
  case None
  then have "\<not> (\<exists>t\<in>set ts. P t)" by (simp add: find_None_iff)
  with None show ?thesis by simp
next
  case (Some row)
  then have "row \<in> set ts" "P row"
    by (auto simp: find_Some_iff)
  with assms Some show ?thesis by auto
qed

lemma hasOutstandingInstance_iff:
  assumes "wellFormed gen d"
  shows "hasOutstandingInstance sid d \<longleftrightarrow>
         (\<exists>t\<in>set (tasks d). t_recurrenceSeriesId t = Some sid \<and> t_deletedAt t = None \<and>
                              t_status t \<noteq> Done)"
  unfolding hasOutstandingInstance_def
  by (rule find_nonempty_id) (rule wellFormedD(3) [OF assms])

lemma hasMaterializedDueDate_iff:
  assumes "wellFormed gen d"
  shows "hasMaterializedDueDate sid due d \<longleftrightarrow>
         (\<exists>t\<in>set (tasks d). t_recurrenceSeriesId t = Some sid \<and> t_dueDate t = Some due \<and>
                              t_deletedAt t = None)"
  unfolding hasMaterializedDueDate_def
  by (rule find_nonempty_id) (rule wellFormedD(3) [OF assms])

section \<open>Appending keeps the invariants\<close>

lemma wellFormed_appended:
  assumes "wellFormed gen d" and "appended gen now S d d'"
    and "map s_id (recurrenceSeries d') = map s_id (recurrenceSeries d)"
  shows "wellFormed gen d'"
proof (rule wellFormedI)
  note wf = wellFormedD [OF assms(1)]
  from assms(2) obtain news where news: "tasks d' = tasks d @ news"
    "idSeq d' = idSeq d + length news"
    "\<And>j. j < length news \<Longrightarrow> \<exists>s\<in>S. \<exists>due. news ! j = instanceValues (gen (idSeq d + j)) now s due"
    unfolding appended_def by blast
  have nid: "t_id (news ! j) = gen (idSeq d + j)" if "j < length news" for j
    using news(3) [OF that] by auto
  have nmem: "\<exists>j<length news. t_id t = gen (idSeq d + j)" if "t \<in> set news" for t
  proof -
    from that obtain j where "j < length news" "t = news ! j"
      by (auto simp: in_set_conv_nth)
    with nid show ?thesis by auto
  qed
  have sids: "\<exists>s0\<in>set (recurrenceSeries d). s_id s0 = s_id s" if "s \<in> set (recurrenceSeries d')" for s
  proof -
    from that have "s_id s \<in> set (map s_id (recurrenceSeries d'))" by simp
    then have "s_id s \<in> set (map s_id (recurrenceSeries d))" by (simp only: assms(3))
    then show ?thesis by auto
  qed
  show "distinct (map t_id (tasks d'))"
  proof -
    have "map t_id news = map (\<lambda>j. gen (idSeq d + j)) [0..<length news]"
      by (rule nth_equalityI) (simp_all add: nid)
    moreover have "inj_on (\<lambda>k. gen (idSeq d + k)) {0..<length news}"
    proof (rule inj_onI)
      fix x y assume "gen (idSeq d + x) = gen (idSeq d + y)"
      with wf(4) have "idSeq d + x = idSeq d + y"
        by (rule inj_on_from) simp_all
      then show "x = y" by simp
    qed
    then have "distinct (map (\<lambda>j. gen (idSeq d + j)) [0..<length news])"
      by (simp add: distinct_map)
    ultimately have "distinct (map t_id news)" by simp
    moreover have "x \<notin> set (map t_id news)" if "x \<in> set (map t_id (tasks d))" for x
    proof
      assume "x \<in> set (map t_id news)"
      then obtain t where "t \<in> set news" "x = t_id t" by auto
      with nmem obtain j where j: "x = gen (idSeq d + j)" by metis
      from that obtain t0 where "t0 \<in> set (tasks d)" "x = t_id t0" by auto
      with wf(6) [of "idSeq d + j" t0] j show False by simp
    qed
    then have "set (map t_id (tasks d)) \<inter> set (map t_id news) = {}"
      by blast
    ultimately show ?thesis
      unfolding news(1) using wf(1) by (simp only: map_append distinct_append)
  qed
  show "distinct (map s_id (recurrenceSeries d'))"
    using wf(2) by (simp only: assms(3))
  show "t_id t \<noteq> []" if "t \<in> set (tasks d')" for t
  proof (cases "t \<in> set (tasks d)")
    case True
    then show ?thesis by (rule wf(3))
  next
    case False
    with that have "t \<in> set news" by (simp add: news(1))
    with nmem obtain j where "t_id t = gen (idSeq d + j)" by metis
    with wf(5) [of "idSeq d + j"] show ?thesis by simp
  qed
  show "inj_on gen {idSeq d'..}"
    using wf(4) by (rule inj_on_subset) (auto simp: news(2))
  fix k assume "idSeq d' \<le> k"
  then have k: "idSeq d + length news \<le> k" by (simp add: news(2))
  then have k0: "idSeq d \<le> k" by simp
  show "gen k \<noteq> []" using wf(5) [OF k0] .
  show "t_id t \<noteq> gen k" if "t \<in> set (tasks d')" for t
  proof (cases "t \<in> set (tasks d)")
    case True
    then show ?thesis by (rule wf(6) [OF k0])
  next
    case False
    with that have "t \<in> set news" by (simp add: news(1))
    with nmem obtain j where j: "j < length news" "t_id t = gen (idSeq d + j)" by metis
    show ?thesis
    proof
      assume "t_id t = gen k"
      then have "gen (idSeq d + j) = gen k" using j(2) by simp
      with wf(4) have "idSeq d + j = k"
        by (rule inj_on_from) (use k0 in simp_all)
      with j(1) k show False by simp
    qed
  qed
  show "s_id s \<noteq> gen k" if "s \<in> set (recurrenceSeries d')" for s
    using sids [OF that] wf(7) [OF k0] by metis
qed

lemma wellFormed_syncSeries:
  "wellFormed gen d \<Longrightarrow> wellFormed gen (syncSeries nxt gen today now s d)"
  by (rule wellFormed_appended [where S = "{s}" and now = now])
     (simp_all add: syncSeries_appended syncSeries_series_ids)

lemma wellFormed_syncRows:
  "wellFormed gen d \<Longrightarrow> wellFormed gen (syncRows nxt gen today now rows d)"
  by (induction rows arbitrary: d) (simp_all add: wellFormed_syncSeries)

lemma wellFormed_materialize:
  "wellFormed gen d \<Longrightarrow> wellFormed gen (materializeSeries gen now s due d)"
  by (rule wellFormed_appended [where S = "{s}" and now = now])
     (simp_all add: appended_materialize materializeSeries_fields)

section \<open>The instances of a series during a pass\<close>

lemma appended_instancesOf_other:
  assumes "appended gen now S d d'" and "\<And>s. s \<in> S \<Longrightarrow> s_id s \<noteq> sid"
  shows "instancesOf sid d' = instancesOf sid d"
proof -
  from assms(1) obtain news where news: "tasks d' = tasks d @ news"
    "\<And>j. j < length news \<Longrightarrow> \<exists>s\<in>S. \<exists>due. news ! j = instanceValues (gen (idSeq d + j)) now s due"
    unfolding appended_def by blast
  have "t_recurrenceSeriesId t \<noteq> Some sid" if "t \<in> set news" for t
  proof -
    from that obtain j where "j < length news" "t = news ! j"
      by (auto simp: in_set_conv_nth)
    with news(2) obtain s due where "s \<in> S" "t = instanceValues (gen (idSeq d + j)) now s due"
      by blast
    with assms(2) show ?thesis by simp
  qed
  then have "filter (\<lambda>t. t_recurrenceSeriesId t = Some sid) news = []"
    by (simp add: filter_empty_conv)
  then show ?thesis
    by (simp add: instancesOf_def news(1))
qed

lemma syncRows_instancesOf_other:
  assumes "\<And>s. s \<in> set rows \<Longrightarrow> s_id s \<noteq> sid"
  shows "instancesOf sid (syncRows nxt gen today now rows d) = instancesOf sid d"
  by (rule appended_instancesOf_other [where S = "set rows" and gen = gen and now = now])
     (simp_all add: syncRows_appended assms)

lemma syncRows_append:
  "syncRows nxt gen today now (xs @ ys) d =
   syncRows nxt gen today now ys (syncRows nxt gen today now xs d)"
  by (induction xs arbitrary: d) simp_all

text \<open>Migration relinks only rows that had no series: the instances of a series stay.\<close>

lemma migrate_instancesOf:
  assumes "wellFormed gen d" and "\<And>k. idSeq d \<le> k \<Longrightarrow> gen k \<noteq> sid"
  shows "instancesOf sid (migrateLegacyTaskRecurrencesForUser nxt gen u today now d) =
         instancesOf sid d"
proof -
  let ?d' = "migrateLegacyTaskRecurrencesForUser nxt gen u today now d"
  let ?rows = "filter (isLegacyRow u) (tasks d)"
  have nth: "(t_recurrenceSeriesId (tasks ?d' ! i) = Some sid \<longleftrightarrow>
              t_recurrenceSeriesId (tasks d ! i) = Some sid) \<and>
             (t_recurrenceSeriesId (tasks d ! i) = Some sid \<longrightarrow> tasks ?d' ! i = tasks d ! i)"
    if i: "i < length (tasks d)" for i
  proof (cases "isLegacyRow u (tasks d ! i) \<or> t_id (tasks d ! i) \<in> t_id ` set ?rows")
    case True
    with migrate_task_nth [OF i, of u nxt gen today now]
    obtain k where k: "k < length ?rows" "t_id (?rows ! k) = t_id (tasks d ! i)"
      "tasks ?d' ! i = linkToSeries (gen (idSeq d + k)) now (?rows ! k) (tasks d ! i)"
      by auto
    have "?rows ! k \<in> set ?rows" using k(1) by (rule nth_mem)
    then have "?rows ! k \<in> set (tasks d)" "isLegacyRow u (?rows ! k)" by simp_all
    moreover have "tasks d ! i \<in> set (tasks d)" using i by simp
    ultimately have "isLegacyRow u (tasks d ! i)"
      using k(2) wellFormed_task_id_inj [OF assms(1)] by metis
    then have "t_recurrenceSeriesId (tasks d ! i) = None"
      by (simp add: isLegacyRow_def)
    moreover have "t_recurrenceSeriesId (tasks ?d' ! i) \<noteq> Some sid"
      using assms(2) [of "idSeq d + k"] by (simp add: k(3))
    ultimately show ?thesis by simp
  next
    case False
    with migrate_task_nth [OF i, of u nxt gen today now]
    have "tasks ?d' ! i = tasks d ! i" by simp
    then show ?thesis by simp
  qed
  have "filter (\<lambda>t. t_recurrenceSeriesId t = Some sid) xs =
        filter (\<lambda>t. t_recurrenceSeriesId t = Some sid) ys"
    if "length xs = length ys"
      and "\<And>i. i < length ys \<Longrightarrow>
             (t_recurrenceSeriesId (xs ! i) = Some sid \<longleftrightarrow> t_recurrenceSeriesId (ys ! i) = Some sid) \<and>
             (t_recurrenceSeriesId (ys ! i) = Some sid \<longrightarrow> xs ! i = ys ! i)"
    for xs ys :: "task list"
    using that
  proof (induction xs ys rule: list_induct2)
    case Nil
    show ?case by simp
  next
    case (Cons x xs y ys)
    have hd: "(t_recurrenceSeriesId x = Some sid \<longleftrightarrow> t_recurrenceSeriesId y = Some sid) \<and>
              (t_recurrenceSeriesId y = Some sid \<longrightarrow> x = y)"
      using Cons.prems [of 0] by simp
    have tl: "filter (\<lambda>t. t_recurrenceSeriesId t = Some sid) xs =
              filter (\<lambda>t. t_recurrenceSeriesId t = Some sid) ys"
    proof (rule Cons.IH)
      fix i assume "i < length ys"
      then show "(t_recurrenceSeriesId (xs ! i) = Some sid \<longleftrightarrow> t_recurrenceSeriesId (ys ! i) = Some sid) \<and>
             (t_recurrenceSeriesId (ys ! i) = Some sid \<longrightarrow> xs ! i = ys ! i)"
        using Cons.prems [of "Suc i"] by simp
    qed
    from hd tl show ?case by auto
  qed
  from this [of "tasks ?d'" "tasks d"] nth show ?thesis
    by (simp add: instancesOf_def migrate_fields)
qed

section \<open>After-completion series\<close>

lemma set_instancesOf:
  "set (instancesOf sid d) = {t \<in> set (tasks d). t_recurrenceSeriesId t = Some sid}"
  by (simp add: instancesOf_def)

lemma instancesOf_materialize:
  "instancesOf (s_id s) (materializeSeries gen now s due d) =
   instancesOf (s_id s) d @ [instanceValues (gen (idSeq d)) now s due]"
  by (simp add: instancesOf_def materializeSeries_fields)

lemma syncSeries_after_completion_instances:
  assumes "wellFormed gen d" and "s_recurrenceBehavior s = AfterCompletion"
  shows "instancesOf (s_id s) (syncSeries nxt gen today now s d) =
     (if (\<exists>t\<in>set (instancesOf (s_id s) d). t_deletedAt t = None \<and> t_status t \<noteq> Done) \<or>
         (\<exists>t\<in>set (instancesOf (s_id s) d). t_deletedAt t = None \<and>
                                            t_dueDate t = Some (s_nextDueDate s))
      then instancesOf (s_id s) d
      else instancesOf (s_id s) d @ [instanceValues (gen (idSeq d)) now s (s_nextDueDate s)])"
proof -
  have out: "hasOutstandingInstance (s_id s) d \<longleftrightarrow>
      (\<exists>t\<in>set (instancesOf (s_id s) d). t_deletedAt t = None \<and> t_status t \<noteq> Done)"
    unfolding hasOutstandingInstance_iff [OF assms(1)] set_instancesOf by blast
  have mat: "hasMaterializedDueDate (s_id s) (s_nextDueDate s) d \<longleftrightarrow>
      (\<exists>t\<in>set (instancesOf (s_id s) d). t_deletedAt t = None \<and>
                                         t_dueDate t = Some (s_nextDueDate s))"
    unfolding hasMaterializedDueDate_iff [OF assms(1)] set_instancesOf by blast
  show ?thesis
    unfolding out [symmetric] mat [symmetric]
    using assms(2) by (simp add: syncSeries_def instancesOf_materialize)
qed

text \<open>What a pass does to the instances of one of the rows it selects.\<close>

lemma sync_instancesOf_selected:
  assumes "wellFormed gen d" and "s \<in> set (recurrenceSeries d)" and "isDueSeries u today s"
  shows "\<exists>d1. wellFormed gen d1 \<and> instancesOf (s_id s) d1 = instancesOf (s_id s) d \<and>
              s \<in> set (recurrenceSeries d1) \<and>
              instancesOf (s_id s) (syncRecurrenceSeriesForUser nxt gen u today now d) =
                instancesOf (s_id s) (syncSeries nxt gen today now s d1)"
proof -
  let ?d0 = "migrateLegacyTaskRecurrencesForUser nxt gen u today now d"
  let ?rows = "filter (isDueSeries u today) (recurrenceSeries ?d0)"
  have wf0: "wellFormed gen ?d0"
    using assms(1) by (rule wellFormed_migrate)
  have s0: "s \<in> set (recurrenceSeries ?d0)"
    using assms(2) by (simp add: migrate_fields)
  then have "s \<in> set ?rows"
    using assms(3) by simp
  then obtain pre post where rows: "?rows = pre @ s # post"
    by (auto dest: split_list)
  have "distinct (map s_id ?rows)"
    using wellFormedD(2) [OF wf0] by (rule distinct_map_filter)
  then have "s_id s \<notin> s_id ` set pre" "s_id s \<notin> s_id ` set post"
    unfolding rows by auto
  then have other: "\<And>s'. s' \<in> set pre \<Longrightarrow> s_id s' \<noteq> s_id s"
    "\<And>s'. s' \<in> set post \<Longrightarrow> s_id s' \<noteq> s_id s"
    by (metis imageI)+
  let ?d1 = "syncRows nxt gen today now pre ?d0"
  have wf1: "wellFormed gen ?d1"
    using wf0 by (rule wellFormed_syncRows)
  have i0: "instancesOf (s_id s) ?d0 = instancesOf (s_id s) d"
    using assms(1)
  proof (rule migrate_instancesOf)
    fix k assume "idSeq d \<le> k"
    then show "gen k \<noteq> s_id s"
      using wellFormedD(7) [OF assms(1) _ assms(2)] by metis
  qed
  have i1: "instancesOf (s_id s) ?d1 = instancesOf (s_id s) ?d0"
    by (rule syncRows_instancesOf_other) (rule other(1))
  have "\<forall>s'\<in>set pre. s_id s' = s_id (recurrenceSeries ?d0 ! i) \<longrightarrow>
          s_recurrenceBehavior s' = AfterCompletion"
    if "recurrenceSeries ?d0 ! i = s" for i
    using that other(1) by auto
  moreover from s0 obtain i where i: "i < length (recurrenceSeries ?d0)" "recurrenceSeries ?d0 ! i = s"
    by (auto simp: in_set_conv_nth)
  ultimately have "recurrenceSeries ?d1 ! i = recurrenceSeries ?d0 ! i"
    by (intro syncRows_series_nth_same) simp_all
  then have s1: "s \<in> set (recurrenceSeries ?d1)"
    using i by (metis nth_mem syncRows_series_length)
  have "syncRecurrenceSeriesForUser nxt gen u today now d =
        syncRows nxt gen today now post (syncSeries nxt gen today now s ?d1)"
    by (simp add: syncRecurrenceSeriesForUser_def Let_def rows syncRows_append)
  then have "instancesOf (s_id s) (syncRecurrenceSeriesForUser nxt gen u today now d) =
             instancesOf (s_id s) (syncSeries nxt gen today now s ?d1)"
    using syncRows_instancesOf_other [of post "s_id s", OF other(2)] by simp
  with wf1 i0 i1 s1 show ?thesis
    by auto
qed

text \<open>
  Claim C3. Let \<open>s\<close> be an active, non-deleted after-completion series of the user with
  \<open>nextDueDate \<le> today\<close>; a task row exists when it is not soft-deleted (the lookups of
  the code skip soft-deleted rows). If a task linked to \<open>s\<close> exists that is not done, the
  pass creates no task linked to \<open>s\<close>. Otherwise, if no task linked to \<open>s\<close> exists with
  due date \<open>nextDueDate\<close>, the pass creates exactly one task linked to \<open>s\<close>: open, due on
  \<open>nextDueDate\<close>, with the series' title, description, priority and project. (When such
  a task exists, none is created.)
\<close>

theorem sync_materializes_after_completion_once:
  assumes "wellFormed gen d" and "s \<in> set (recurrenceSeries d)"
    and "s_userId s = u \<and> s_deletedAt s = None \<and> s_active s \<and> s_nextDueDate s \<le> today \<and>
         s_recurrenceBehavior s = AfterCompletion"
  shows "if \<exists>t\<in>set (tasks d). t_recurrenceSeriesId t = Some (s_id s) \<and> t_deletedAt t = None \<and>
              t_status t \<noteq> Done
         then instancesOf (s_id s) (syncRecurrenceSeriesForUser nxt gen u today now d) =
                instancesOf (s_id s) d
         else if \<exists>t\<in>set (tasks d). t_recurrenceSeriesId t = Some (s_id s) \<and>
                   t_deletedAt t = None \<and> t_dueDate t = Some (s_nextDueDate s)
         then instancesOf (s_id s) (syncRecurrenceSeriesForUser nxt gen u today now d) =
                instancesOf (s_id s) d
         else \<exists>t. instancesOf (s_id s) (syncRecurrenceSeriesForUser nxt gen u today now d) =
                     instancesOf (s_id s) d @ [t] \<and>
                   t_status t = Open \<and> t_dueDate t = Some (s_nextDueDate s) \<and>
                   t_title t = s_title s \<and> t_description t = s_description s \<and>
                   t_priority t = s_priority s \<and> t_projectId t = s_projectId s \<and>
                   t_recurrenceSeriesId t = Some (s_id s) \<and> t_userId t = s_userId s \<and>
                   t_deletedAt t = None"
proof -
  have due: "isDueSeries u today s" and ac: "s_recurrenceBehavior s = AfterCompletion"
    using assms(3) by (simp_all add: isDueSeries_def)
  from sync_instancesOf_selected [OF assms(1,2) due, of nxt now]
  obtain d1 where d1: "wellFormed gen d1" "instancesOf (s_id s) d1 = instancesOf (s_id s) d"
    "instancesOf (s_id s) (syncRecurrenceSeriesForUser nxt gen u today now d) =
       instancesOf (s_id s) (syncSeries nxt gen today now s d1)"
    by blast
  have a: "(\<exists>t\<in>set (tasks d). t_recurrenceSeriesId t = Some (s_id s) \<and> t_deletedAt t = None \<and>
              t_status t \<noteq> Done) \<longleftrightarrow>
           (\<exists>t\<in>set (instancesOf (s_id s) d). t_deletedAt t = None \<and> t_status t \<noteq> Done)"
    and b: "(\<exists>t\<in>set (tasks d). t_recurrenceSeriesId t = Some (s_id s) \<and>
                   t_deletedAt t = None \<and> t_dueDate t = Some (s_nextDueDate s)) \<longleftrightarrow>
           (\<exists>t\<in>set (instancesOf (s_id s) d). t_deletedAt t = None \<and>
                   t_dueDate t = Some (s_nextDueDate s))"
    unfolding set_instancesOf by blast+
  let ?t = "instanceValues (gen (idSeq d1)) now s (s_nextDueDate s)"
  have "t_status ?t = Open \<and> t_dueDate ?t = Some (s_nextDueDate s) \<and>
        t_title ?t = s_title s \<and> t_description ?t = s_description s \<and>
        t_priority ?t = s_priority s \<and> t_projectId ?t = s_projectId s \<and>
        t_recurrenceSeriesId ?t = Some (s_id s) \<and> t_userId ?t = s_userId s \<and>
        t_deletedAt ?t = None"
    by simp
  then have ex: "\<exists>t. instancesOf (s_id s) d @ [?t] = instancesOf (s_id s) d @ [t] \<and>
                   t_status t = Open \<and> t_dueDate t = Some (s_nextDueDate s) \<and>
                   t_title t = s_title s \<and> t_description t = s_description s \<and>
                   t_priority t = s_priority s \<and> t_projectId t = s_projectId s \<and>
                   t_recurrenceSeriesId t = Some (s_id s) \<and> t_userId t = s_userId s \<and>
                   t_deletedAt t = None"
    by blast
  let ?A = "\<exists>t\<in>set (instancesOf (s_id s) d). t_deletedAt t = None \<and> t_status t \<noteq> Done"
  let ?B = "\<exists>t\<in>set (instancesOf (s_id s) d). t_deletedAt t = None \<and>
                   t_dueDate t = Some (s_nextDueDate s)"
  have res: "instancesOf (s_id s) (syncRecurrenceSeriesForUser nxt gen u today now d) =
     (if ?A \<or> ?B then instancesOf (s_id s) d else instancesOf (s_id s) d @ [?t])"
    unfolding d1(3) syncSeries_after_completion_instances [OF d1(1) ac] d1(2) ..
  show ?thesis
  proof (cases ?A)
    case True
    then show ?thesis unfolding a b res by simp
  next
    case notA: False
    show ?thesis
    proof (cases ?B)
      case True
      with notA show ?thesis unfolding a b res by simp
    next
      case False
      with notA ex show ?thesis unfolding a b res by simp
    qed
  qed
qed

lemma wellFormed_sync:
  "wellFormed gen d \<Longrightarrow> wellFormed gen (syncRecurrenceSeriesForUser nxt gen u today now d)"
  by (simp add: syncRecurrenceSeriesForUser_def Let_def wellFormed_syncRows wellFormed_migrate)

lemma example_sync_rows:
  "recurrenceSeries (syncRecurrenceSeriesForUser exampleNext exampleGen ''alice'' ''2024-05-10''
      ''2024-05-10T06:00:00.000Z'' exampleDb) ! 0 = exampleSeries \<and>
   tasks (syncRecurrenceSeriesForUser exampleNext exampleGen ''alice'' ''2024-05-10''
      ''2024-05-10T06:00:00.000Z'' exampleDb) ! 3 =
     instanceValues ''r++'' ''2024-05-10T06:00:00.000Z'' exampleSeries ''2024-05-10''"
  by (simp add: sync_defs date_defs example_defs catchUp_numeral)

theorem sync_materializes_after_completion_once_witness:
  "instancesOf (s_id exampleSeries) exampleDb = [] \<and>
   (\<exists>t. instancesOf (s_id exampleSeries)
           (syncRecurrenceSeriesForUser exampleNext exampleGen ''alice'' ''2024-05-10''
              ''2024-05-10T06:00:00.000Z'' exampleDb) =
         instancesOf (s_id exampleSeries) exampleDb @ [t] \<and>
         t_status t = Open \<and> t_dueDate t = Some (s_nextDueDate exampleSeries) \<and>
         t_title t = s_title exampleSeries \<and> t_description t = s_description exampleSeries \<and>
         t_priority t = s_priority exampleSeries \<and> t_projectId t = s_projectId exampleSeries \<and>
         t_recurrenceSeriesId t = Some (s_id exampleSeries) \<and>
         t_userId t = s_userId exampleSeries \<and> t_deletedAt t = None) \<and>
   instancesOf (s_id exampleSeries)
     (syncRecurrenceSeriesForUser exampleNext exampleGen ''alice'' ''2024-05-10''
        ''2024-05-10T06:00:01.000Z''
        (syncRecurrenceSeriesForUser exampleNext exampleGen ''alice'' ''2024-05-10''
           ''2024-05-10T06:00:00.000Z'' exampleDb)) =
   instancesOf (s_id exampleSeries)
     (syncRecurrenceSeriesForUser exampleNext exampleGen ''alice'' ''2024-05-10''
        ''2024-05-10T06:00:00.000Z'' exampleDb)"
proof -
  let ?d1 = "syncRecurrenceSeriesForUser exampleNext exampleGen ''alice'' ''2024-05-10''
        ''2024-05-10T06:00:00.000Z'' exampleDb"
  have mem: "exampleSeries \<in> set (recurrenceSeries exampleDb)"
    by (simp add: exampleDb_def)
  have sel: "s_userId exampleSeries = ''alice'' \<and> s_deletedAt exampleSeries = None \<and>
      s_active exampleSeries \<and> s_nextDueDate exampleSeries \<le> ''2024-05-10'' \<and>
      s_recurrenceBehavior exampleSeries = AfterCompletion"
    by (simp add: exampleSeries_def)
  have none: "instancesOf (s_id exampleSeries) exampleDb = []"
    by (simp add: instancesOf_def exampleDb_def exampleTask_def)
  have noOut: "\<not> (\<exists>t\<in>set (tasks exampleDb). t_recurrenceSeriesId t = Some (s_id exampleSeries) \<and>
      t_deletedAt t = None \<and> t_status t \<noteq> Done)"
    and noMat: "\<not> (\<exists>t\<in>set (tasks exampleDb). t_recurrenceSeriesId t = Some (s_id exampleSeries) \<and>
      t_deletedAt t = None \<and> t_dueDate t = Some (s_nextDueDate exampleSeries))"
    by (simp_all add: exampleDb_def exampleTask_def)
  note first = sync_materializes_after_completion_once [OF exampleDb_wellFormed mem sel,
      where nxt = exampleNext and now = "''2024-05-10T06:00:00.000Z''"]
  from first noOut noMat have one: "\<exists>t. instancesOf (s_id exampleSeries) ?d1 =
         instancesOf (s_id exampleSeries) exampleDb @ [t] \<and>
         t_status t = Open \<and> t_dueDate t = Some (s_nextDueDate exampleSeries) \<and>
         t_title t = s_title exampleSeries \<and> t_description t = s_description exampleSeries \<and>
         t_priority t = s_priority exampleSeries \<and> t_projectId t = s_projectId exampleSeries \<and>
         t_recurrenceSeriesId t = Some (s_id exampleSeries) \<and>
         t_userId t = s_userId exampleSeries \<and> t_deletedAt t = None"
    by simp
  have wf1: "wellFormed exampleGen ?d1"
    using exampleDb_wellFormed by (rule wellFormed_sync)
  have len: "0 < length (recurrenceSeries ?d1)" "3 < length (tasks ?d1)"
    using example_sync [THEN conjunct2, THEN arg_cong [where f = length]]
      example_sync [THEN conjunct1, THEN arg_cong [where f = length]] by simp_all
  have mem1: "exampleSeries \<in> set (recurrenceSeries ?d1)"
    using nth_mem [OF len(1)] example_sync_rows by simp
  have "tasks ?d1 ! 3 \<in> set (tasks ?d1)"
    using len(2) by (rule nth_mem)
  moreover have "t_recurrenceSeriesId (tasks ?d1 ! 3) = Some (s_id exampleSeries) \<and>
      t_deletedAt (tasks ?d1 ! 3) = None \<and> t_status (tasks ?d1 ! 3) \<noteq> Done"
    using example_sync_rows by simp
  ultimately have out1: "\<exists>t\<in>set (tasks ?d1). t_recurrenceSeriesId t = Some (s_id exampleSeries) \<and>
      t_deletedAt t = None \<and> t_status t \<noteq> Done"
    by blast
  note second = sync_materializes_after_completion_once [OF wf1 mem1 sel,
      where nxt = exampleNext and now = "''2024-05-10T06:00:01.000Z''"]
  from second out1 have same: "instancesOf (s_id exampleSeries)
     (syncRecurrenceSeriesForUser exampleNext exampleGen ''alice'' ''2024-05-10''
        ''2024-05-10T06:00:01.000Z'' ?d1) = instancesOf (s_id exampleSeries) ?d1"
    by simp
  from none one same show ?thesis
    by blast
qed


section \<open>Catching up along a schedule\<close>

lemma schedule_later:
  "schedule nxt s (c # cs) \<Longrightarrow> x \<in> set cs \<Longrightarrow> c < x"
proof (induction cs arbitrary: c)
  case Nil
  then show ?case by simp
next
  case (Cons c' cs)
  then have "c < c'" and "schedule nxt s (c' # cs)" by simp_all
  show ?case
  proof (cases "x = c'")
    case True
    with \<open>c < c'\<close> show ?thesis by simp
  next
    case False
    with Cons.prems(2) have "x \<in> set cs" by simp
    with \<open>schedule nxt s (c' # cs)\<close> have "c' < x" by (rule Cons.IH)
    with \<open>c < c'\<close> show ?thesis by (rule less_trans)
  qed
qed

lemma schedule_sorted:
  "schedule nxt s cs \<Longrightarrow> sorted_wrt (<) cs"
proof (induction cs)
  case Nil
  show ?case by simp
next
  case (Cons c cs)
  have "schedule nxt s cs"
    using Cons.prems by (cases cs) simp_all
  then have "sorted_wrt (<) cs" by (rule Cons.IH)
  moreover have "\<forall>x\<in>set cs. c < x"
    using Cons.prems by (blast intro: schedule_later)
  ultimately show ?case by simp
qed

lemma map_upt_Suc_shift:
  "map f [0..<Suc n] = f 0 # map (\<lambda>j. f (Suc j)) [0..<n]"
  by (simp add: upt_conv_Cons map_Suc_upt [symmetric] del: upt_Suc)

lemma not_materialized:
  assumes "\<forall>t\<in>set (tasks d). t_recurrenceSeriesId t = Some sid \<longrightarrow> t_dueDate t \<noteq> Some c"
  shows "\<not> hasMaterializedDueDate sid c d"
proof -
  have "find (\<lambda>t. t_recurrenceSeriesId t = Some sid \<and> t_dueDate t = Some c \<and> t_deletedAt t = None)
          (tasks d) = None"
    using assms by (auto simp: find_None_iff)
  then show ?thesis by (simp add: hasMaterializedDueDate_def)
qed

text \<open>
  The loop run along a schedule none of whose dates up to today is materialized: an
  instance for each date but the last, in order, and the last date as the cursor. The
  loop ends because the last date is after today, or because the iterations are used up.
\<close>

lemma catchUp_schedule:
  assumes "schedule nxt s (c # cs)"
    and "\<forall>x\<in>set (butlast (c # cs)). x \<le> today"
    and "length cs \<le> n" and "length cs < n \<longrightarrow> today < last (c # cs)"
    and "\<forall>t\<in>set (tasks d). t_recurrenceSeriesId t = Some (s_id s) \<longrightarrow>
           (\<forall>x\<in>set (butlast (c # cs)). t_dueDate t \<noteq> Some x)"
  shows "catchUp n nxt gen today now s c d =
           (last (c # cs),
            d\<lparr>tasks := tasks d @
                 map (\<lambda>j. instanceValues (gen (idSeq d + j)) now s ((c # cs) ! j)) [0..<length cs],
              idSeq := idSeq d + length cs\<rparr>)"
  using assms
proof (induction cs arbitrary: c d n)
  case Nil
  show ?case
  proof (cases n)
    case 0
    then show ?thesis by simp
  next
    case (Suc m)
    with Nil.prems(4) have "today < c" by simp
    with Suc show ?thesis by simp
  qed
next
  case (Cons c' cs)
  from Cons.prems(1) have nx: "nxt c (s_recurrenceType s) (s_recurrenceRule s) = Some c'"
    and lt: "c < c'" and sch: "schedule nxt s (c' # cs)"
    by simp_all
  from Cons.prems(2) have le: "c \<le> today" and les: "\<forall>x\<in>set (butlast (c' # cs)). x \<le> today"
    by simp_all
  from Cons.prems(3) obtain m where n: "n = Suc m" and m: "length cs \<le> m"
    by (cases n) simp_all
  from Cons.prems(4) n have lm: "length cs < m \<longrightarrow> today < last (c' # cs)"
    by simp
  have c'ne: "c' \<noteq> []" "c' \<noteq> c"
    using lt by auto
  have nomat: "\<not> hasMaterializedDueDate (s_id s) c d"
    using Cons.prems(5) by (intro not_materialized) simp
  let ?d1 = "materializeSeries gen now s c d"
  have later: "\<forall>x\<in>set (butlast (c' # cs)). c < x"
    using schedule_later [OF Cons.prems(1)] by (metis in_set_butlastD)
  have P1: "\<forall>t\<in>set (tasks ?d1). t_recurrenceSeriesId t = Some (s_id s) \<longrightarrow>
           (\<forall>x\<in>set (butlast (c' # cs)). t_dueDate t \<noteq> Some x)"
  proof (intro ballI impI)
    fix t x assume t: "t \<in> set (tasks ?d1)" and "t_recurrenceSeriesId t = Some (s_id s)"
      and x: "x \<in> set (butlast (c' # cs))"
    show "t_dueDate t \<noteq> Some x"
    proof (cases "t \<in> set (tasks d)")
      case True
      with Cons.prems(5) \<open>t_recurrenceSeriesId t = Some (s_id s)\<close> x show ?thesis by simp
    next
      case False
      with t have "t = instanceValues (gen (idSeq d)) now s c"
        by (simp add: materializeSeries_fields)
      moreover have "c \<noteq> x" using later x by auto
      ultimately show ?thesis by simp
    qed
  qed
  have step: "catchUp n nxt gen today now s c d = catchUp m nxt gen today now s c' ?d1"
    using le nomat nx c'ne by (simp add: n Let_def not_less [symmetric])
  have "catchUp m nxt gen today now s c' ?d1 =
          (last (c' # cs),
           ?d1\<lparr>tasks := tasks ?d1 @
                 map (\<lambda>j. instanceValues (gen (idSeq ?d1 + j)) now s ((c' # cs) ! j)) [0..<length cs],
               idSeq := idSeq ?d1 + length cs\<rparr>)"
    using sch les m lm P1 by (rule Cons.IH)
  also have "?d1\<lparr>tasks := tasks ?d1 @
                 map (\<lambda>j. instanceValues (gen (idSeq ?d1 + j)) now s ((c' # cs) ! j)) [0..<length cs],
               idSeq := idSeq ?d1 + length cs\<rparr> =
             d\<lparr>tasks := tasks d @
                 map (\<lambda>j. instanceValues (gen (idSeq d + j)) now s ((c # c' # cs) ! j))
                   [0..<length (c' # cs)],
               idSeq := idSeq d + length (c' # cs)\<rparr>"
    by (simp add: materializeSeries_def map_upt_Suc_shift del: upt_Suc)
  finally show ?case
    using step by simp
qed

lemma sync_selected:
  assumes "wellFormed gen d" and "i < length (recurrenceSeries d)"
    and "recurrenceSeries d ! i = s" and "isDueSeries u today s"
  shows "\<exists>d1. wellFormed gen d1 \<and> instancesOf (s_id s) d1 = instancesOf (s_id s) d \<and>
              i < length (recurrenceSeries d1) \<and> recurrenceSeries d1 ! i = s \<and>
              instancesOf (s_id s) (syncRecurrenceSeriesForUser nxt gen u today now d) =
                instancesOf (s_id s) (syncSeries nxt gen today now s d1) \<and>
              recurrenceSeries (syncRecurrenceSeriesForUser nxt gen u today now d) ! i =
                recurrenceSeries (syncSeries nxt gen today now s d1) ! i"
proof -
  let ?d0 = "migrateLegacyTaskRecurrencesForUser nxt gen u today now d"
  let ?rows = "filter (isDueSeries u today) (recurrenceSeries ?d0)"
  have wf0: "wellFormed gen ?d0"
    using assms(1) by (rule wellFormed_migrate)
  have i0: "i < length (recurrenceSeries ?d0)" and r0: "recurrenceSeries ?d0 ! i = s"
    using assms(2,3) by (simp_all add: migrate_fields nth_append)
  then have s0: "s \<in> set (recurrenceSeries ?d0)"
    by (metis nth_mem)
  then have "s \<in> set ?rows"
    using assms(4) by simp
  then obtain pre post where rows: "?rows = pre @ s # post"
    by (auto dest: split_list)
  have "distinct (map s_id ?rows)"
    using wellFormedD(2) [OF wf0] by (rule distinct_map_filter)
  then have "s_id s \<notin> s_id ` set pre" "s_id s \<notin> s_id ` set post"
    unfolding rows by auto
  then have other: "\<And>s'. s' \<in> set pre \<Longrightarrow> s_id s' \<noteq> s_id s"
    "\<And>s'. s' \<in> set post \<Longrightarrow> s_id s' \<noteq> s_id s"
    by (metis imageI)+
  let ?d1 = "syncRows nxt gen today now pre ?d0"
  let ?d2 = "syncSeries nxt gen today now s ?d1"
  have wf1: "wellFormed gen ?d1"
    using wf0 by (rule wellFormed_syncRows)
  have s_in: "s \<in> set (recurrenceSeries d)"
    using assms(2,3) by (metis nth_mem)
  have in0: "instancesOf (s_id s) ?d0 = instancesOf (s_id s) d"
    using assms(1)
  proof (rule migrate_instancesOf)
    fix k assume "idSeq d \<le> k"
    then show "gen k \<noteq> s_id s"
      using wellFormedD(7) [OF assms(1) _ s_in] by metis
  qed
  have in1: "instancesOf (s_id s) ?d1 = instancesOf (s_id s) ?d0"
    by (rule syncRows_instancesOf_other) (rule other(1))
  have r1: "recurrenceSeries ?d1 ! i = recurrenceSeries ?d0 ! i"
    using i0 other(1) by (intro syncRows_series_nth_same) (auto simp: r0)
  have i1: "i < length (recurrenceSeries ?d1)"
    using i0 by (simp add: syncRows_series_length)
  have sync: "syncRecurrenceSeriesForUser nxt gen u today now d =
        syncRows nxt gen today now post ?d2"
    by (simp add: syncRecurrenceSeriesForUser_def Let_def rows syncRows_append)
  have in2: "instancesOf (s_id s) (syncRecurrenceSeriesForUser nxt gen u today now d) =
             instancesOf (s_id s) ?d2"
    using syncRows_instancesOf_other [of post "s_id s", OF other(2)] by (simp add: sync)
  have i2: "i < length (recurrenceSeries ?d2)"
    using i1 by (simp add: syncSeries_series_length)
  have "map s_id (recurrenceSeries ?d2) ! i = map s_id (recurrenceSeries ?d1) ! i"
    by (simp only: syncSeries_series_ids)
  then have id2: "s_id (recurrenceSeries ?d2 ! i) = s_id s"
    using i1 i2 r1 r0 by simp
  have r2: "recurrenceSeries (syncRows nxt gen today now post ?d2) ! i = recurrenceSeries ?d2 ! i"
    using i2 other(2) by (intro syncRows_series_nth_same) (auto simp: id2)
  from wf1 in0 in1 i1 r1 r0 in2 r2 sync show ?thesis
    by auto
qed

lemma syncSeries_duplicate:
  assumes "s_recurrenceBehavior s \<noteq> AfterCompletion"
    and "catchUp 500 nxt gen today now s (s_nextDueDate s) d = (cursor, d')"
  shows "syncSeries nxt gen today now s d =
           (if cursor \<noteq> s_nextDueDate s
            then d'\<lparr>recurrenceSeries :=
                     map (\<lambda>r. if s_id r = s_id s then advanceSeries cursor now r else r)
                       (recurrenceSeries d')\<rparr>
            else d')"
  using assms by (simp add: syncSeries_def)

lemma instancesOf_new:
  "instancesOf (s_id s)
     (d\<lparr>tasks := tasks d @ map (\<lambda>j. instanceValues (f j) now s (g j)) js, idSeq := k\<rparr>) =
   instancesOf (s_id s) d @ map (\<lambda>j. instanceValues (f j) now s (g j)) js"
  by (simp add: instancesOf_def filter_map comp_def)

text \<open>
  A due duplicate-on-schedule series with a schedule of \<open>length cs\<close> steps from its
  \<open>nextDueDate\<close> to the first date after today, or of 500 steps, and no task linked
  to it due on a date of the schedule: the pass materializes one instance per date but
  the last and stores the last date.
\<close>

lemma sync_catch_up:
  assumes wf: "wellFormed gen d" and i: "i < length (recurrenceSeries d)"
    and s: "recurrenceSeries d ! i = s"
    and sel: "s_userId s = u" "s_deletedAt s = None" "s_active s"
      "s_recurrenceBehavior s = DuplicateOnSchedule"
    and prior: "\<forall>t\<in>set (instancesOf (s_id s) d).
                  \<forall>x\<in>set (butlast (s_nextDueDate s # cs)). t_dueDate t \<noteq> Some x"
    and sched: "schedule nxt s (s_nextDueDate s # cs)" and cs: "cs \<noteq> []" "length cs \<le> 500"
    and upto: "\<forall>x\<in>set (butlast (s_nextDueDate s # cs)). x \<le> today"
    and after: "length cs < 500 \<longrightarrow> today < last cs"
  shows "\<exists>k. instancesOf (s_id s) (syncRecurrenceSeriesForUser nxt gen u today now d) =
               instancesOf (s_id s) d @
               map (\<lambda>j. instanceValues (gen (k + j)) now s ((s_nextDueDate s # cs) ! j))
                 [0..<length cs]"
    and "recurrenceSeries (syncRecurrenceSeriesForUser nxt gen u today now d) ! i =
           advanceSeries (last cs) now s"
proof -
  have "s_nextDueDate s \<in> set (butlast (s_nextDueDate s # cs))"
    using cs(1) by simp
  with upto have "s_nextDueDate s \<le> today" by blast
  then have due: "isDueSeries u today s"
    using sel by (simp add: isDueSeries_def)
  from sync_selected [OF wf i s due, of nxt now]
  obtain d1 where d1: "wellFormed gen d1" "instancesOf (s_id s) d1 = instancesOf (s_id s) d"
    "i < length (recurrenceSeries d1)" "recurrenceSeries d1 ! i = s"
    "instancesOf (s_id s) (syncRecurrenceSeriesForUser nxt gen u today now d) =
       instancesOf (s_id s) (syncSeries nxt gen today now s d1)"
    "recurrenceSeries (syncRecurrenceSeriesForUser nxt gen u today now d) ! i =
       recurrenceSeries (syncSeries nxt gen today now s d1) ! i"
    by blast
  have "\<forall>t\<in>set (instancesOf (s_id s) d1).
          \<forall>x\<in>set (butlast (s_nextDueDate s # cs)). t_dueDate t \<noteq> Some x"
    using prior by (simp only: d1(2))
  then have unlinked: "\<forall>t\<in>set (tasks d1). t_recurrenceSeriesId t = Some (s_id s) \<longrightarrow>
           (\<forall>x\<in>set (butlast (s_nextDueDate s # cs)). t_dueDate t \<noteq> Some x)"
    unfolding set_instancesOf by blast
  have last: "last (s_nextDueDate s # cs) = last cs"
    using cs(1) by simp
  let ?news = "map (\<lambda>j. instanceValues (gen (idSeq d1 + j)) now s ((s_nextDueDate s # cs) ! j))
                 [0..<length cs]"
  let ?d' = "d1\<lparr>tasks := tasks d1 @ ?news, idSeq := idSeq d1 + length cs\<rparr>"
  have cu: "catchUp 500 nxt gen today now s (s_nextDueDate s) d1 = (last cs, ?d')"
    using catchUp_schedule [OF sched upto cs(2) _ unlinked, of gen now] after
    by (simp only: last)
  have "last cs \<in> set cs" using cs(1) by simp
  with sched have "s_nextDueDate s < last cs" by (rule schedule_later)
  then have neq: "last cs \<noteq> s_nextDueDate s" by simp
  have beh: "s_recurrenceBehavior s \<noteq> AfterCompletion"
    using sel(4) by simp
  have res: "syncSeries nxt gen today now s d1 =
      ?d'\<lparr>recurrenceSeries :=
             map (\<lambda>r. if s_id r = s_id s then advanceSeries (last cs) now r else r)
               (recurrenceSeries ?d')\<rparr>"
    using syncSeries_duplicate [OF beh cu] neq by simp
  have "instancesOf (s_id s) (syncSeries nxt gen today now s d1) = instancesOf (s_id s) ?d'"
    unfolding res by (simp add: instancesOf_def)
  also have "\<dots> = instancesOf (s_id s) d1 @ ?news"
    by (rule instancesOf_new)
  finally have "instancesOf (s_id s) (syncRecurrenceSeriesForUser nxt gen u today now d) =
      instancesOf (s_id s) d @ ?news"
    using d1(2,5) by simp
  then show "\<exists>k. instancesOf (s_id s) (syncRecurrenceSeriesForUser nxt gen u today now d) =
               instancesOf (s_id s) d @
               map (\<lambda>j. instanceValues (gen (k + j)) now s ((s_nextDueDate s # cs) ! j))
                 [0..<length cs]"
    by blast
  have "recurrenceSeries (syncSeries nxt gen today now s d1) ! i = advanceSeries (last cs) now s"
    unfolding res using d1(3,4) by simp
  with d1(6) show "recurrenceSeries (syncRecurrenceSeriesForUser nxt gen u today now d) ! i =
           advanceSeries (last cs) now s"
    by simp
qed

lemma take_as_map_nth:
  "n \<le> length xs \<Longrightarrow> map (\<lambda>j. xs ! j) [0..<n] = take n xs"
  by (rule nth_equalityI) simp_all

text \<open>
  Claim C2, amended. A duplicate-on-schedule series with daily cadence whose
  \<open>nextDueDate\<close> is exactly 10 days before today (the helper's daily step, applied 10
  times, leads from \<open>nextDueDate\<close> through ever later dates to today, and once more to
  the day after today) and that has no instance yet: one pass materializes exactly 11
  instances, one per day from \<open>nextDueDate\<close> up to and including today, all open, and
  sets the series' \<open>nextDueDate\<close> to the day after today.
\<close>

theorem sync_catches_up_daily_series:
  assumes "wellFormed gen d" and "i < length (recurrenceSeries d)"
    and "recurrenceSeries d ! i = s"
    and "s_userId s = u \<and> s_deletedAt s = None \<and> s_active s \<and>
         s_recurrenceBehavior s = DuplicateOnSchedule \<and> s_recurrenceType s = Daily"
    and "instancesOf (s_id s) d = []"
    and "length ds = 12 \<and> ds ! 0 = s_nextDueDate s \<and> ds ! 10 = today \<and> schedule nxt s ds"
  shows "length (instancesOf (s_id s) (syncRecurrenceSeriesForUser nxt gen u today now d)) = 11 \<and>
         map t_dueDate (instancesOf (s_id s) (syncRecurrenceSeriesForUser nxt gen u today now d)) =
           map Some (take 11 ds) \<and>
         (\<forall>t\<in>set (instancesOf (s_id s) (syncRecurrenceSeriesForUser nxt gen u today now d)).
            t_status t = Open \<and> t_deletedAt t = None \<and> t_title t = s_title s \<and>
            t_userId t = s_userId s) \<and>
         s_id (recurrenceSeries (syncRecurrenceSeriesForUser nxt gen u today now d) ! i) = s_id s \<and>
         s_nextDueDate (recurrenceSeries (syncRecurrenceSeriesForUser nxt gen u today now d) ! i) =
           ds ! 11"
proof -
  from assms(6) have len: "length ds = 12" and d0: "ds ! 0 = s_nextDueDate s"
    and d10: "ds ! 10 = today" and sch: "schedule nxt s ds"
    by simp_all
  from len obtain c cs where ds: "ds = c # cs" and lcs: "length cs = 11"
    by (cases ds) simp_all
  have c: "c = s_nextDueDate s"
    using d0 ds by simp
  have sorted: "sorted_wrt (<) ds"
    using sch by (rule schedule_sorted)
  have upto: "\<forall>x\<in>set (butlast (s_nextDueDate s # cs)). x \<le> today"
  proof
    fix x assume "x \<in> set (butlast (s_nextDueDate s # cs))"
    then have "x \<in> set (take 11 ds)"
      using ds c lcs len by (simp add: butlast_conv_take)
    then obtain j where j: "j < 11" "x = ds ! j"
      using len by (auto simp: in_set_conv_nth)
    show "x \<le> today"
    proof (cases "j = 10")
      case True
      with j d10 show ?thesis by simp
    next
      case False
      with j have "j < 10" by simp
      with sorted have "ds ! j < ds ! 10"
        by (rule sorted_wrt_nth_less) (simp add: len)
      with j d10 show ?thesis by simp
    qed
  qed
  have "cs \<noteq> []" using lcs by auto
  then have "last cs = cs ! (length cs - 1)" by (rule last_conv_nth)
  then have lastcs: "last cs = ds ! 11"
    using ds lcs by simp
  have "ds ! 10 < ds ! 11"
    using sorted by (rule sorted_wrt_nth_less) (simp_all add: len)
  then have after: "length cs < 500 \<longrightarrow> today < last cs"
    using d10 lastcs by simp
  have sel: "s_userId s = u" "s_deletedAt s = None" "s_active s"
    "s_recurrenceBehavior s = DuplicateOnSchedule"
    using assms(4) by simp_all
  have sch': "schedule nxt s (s_nextDueDate s # cs)"
    using sch ds c by simp
  have cs: "cs \<noteq> []" "length cs \<le> 500"
    using lcs by auto
  have prior: "\<forall>t\<in>set (instancesOf (s_id s) d).
                  \<forall>x\<in>set (butlast (s_nextDueDate s # cs)). t_dueDate t \<noteq> Some x"
    using assms(5) by simp
  note cu = sync_catch_up [OF assms(1-3) sel prior sch' cs upto after, where now = now]
  from cu(1) obtain k where inst:
    "instancesOf (s_id s) (syncRecurrenceSeriesForUser nxt gen u today now d) =
       map (\<lambda>j. instanceValues (gen (k + j)) now s (ds ! j)) [0..<11]"
    unfolding lcs ds c assms(5) append_Nil by blast
  have "map t_dueDate (map (\<lambda>j. instanceValues (gen (k + j)) now s (ds ! j)) [0..<11]) =
        map Some (map (\<lambda>j. ds ! j) [0..<11])"
    by simp
  also have "\<dots> = map Some (take 11 ds)"
    using len by (simp only: take_as_map_nth)
  finally have dues: "map t_dueDate
      (instancesOf (s_id s) (syncRecurrenceSeriesForUser nxt gen u today now d)) =
      map Some (take 11 ds)"
    unfolding inst .
  have props: "\<forall>t\<in>set (instancesOf (s_id s) (syncRecurrenceSeriesForUser nxt gen u today now d)).
            t_status t = Open \<and> t_deletedAt t = None \<and> t_title t = s_title s \<and>
            t_userId t = s_userId s"
    unfolding inst by auto
  have "length (instancesOf (s_id s) (syncRecurrenceSeriesForUser nxt gen u today now d)) = 11"
    unfolding inst by simp
  with dues props cu(2) lastcs show ?thesis
    by simp
qed

lemma backlogDb_wellFormed: "wellFormed exampleGen (backlogDb due)"
proof -
  have "inj exampleGen"
    by (rule injI) (simp add: exampleGen_def)
  then have "inj_on exampleGen {idSeq (backlogDb due)..}"
    by (rule inj_on_subset) simp
  moreover have "exampleGen k \<noteq> [] \<and> (\<forall>t\<in>set (tasks (backlogDb due)). t_id t \<noteq> exampleGen k) \<and>
      (\<forall>s\<in>set (recurrenceSeries (backlogDb due)). s_id s \<noteq> exampleGen k)" for k
    by (simp add: exampleGen_def backlogDb_def backlogSeries_def exampleSeries_def)
  ultimately show ?thesis
    by (simp add: wellFormed_def) (simp add: backlogDb_def)
qed

theorem sync_ten_day_backlog_counterexample:
  "addDays 10 (2024, 5, 1) = (2024, 5, 11) \<and>
   tasks (backlogDb ''2024-05-01'') = [] \<and>
   map (\<lambda>s. (s_recurrenceBehavior s, s_recurrenceType s, s_nextDueDate s))
     (recurrenceSeries (backlogDb ''2024-05-01'')) =
     [(DuplicateOnSchedule, Daily, ''2024-05-01'')] \<and>
   map t_dueDate (tasks (syncRecurrenceSeriesForUser exampleNext exampleGen ''alice''
      ''2024-05-11'' ''2024-05-11T06:00:00.000Z'' (backlogDb ''2024-05-01''))) =
     [Some ''2024-05-01'', Some ''2024-05-02'', Some ''2024-05-03'', Some ''2024-05-04'',
      Some ''2024-05-05'', Some ''2024-05-06'', Some ''2024-05-07'', Some ''2024-05-08'',
      Some ''2024-05-09'', Some ''2024-05-10'', Some ''2024-05-11''] \<and>
   length (tasks (syncRecurrenceSeriesForUser exampleNext exampleGen ''alice''
      ''2024-05-11'' ''2024-05-11T06:00:00.000Z'' (backlogDb ''2024-05-01''))) \<noteq> 10"
  by (simp add: sync_defs date_defs example_defs catchUp_numeral backlogDb_def backlogSeries_def)

theorem sync_catches_up_daily_series_witness:
  "length (instancesOf ''s1'' (syncRecurrenceSeriesForUser exampleNext exampleGen ''alice''
      ''2024-05-11'' ''2024-05-11T06:00:00.000Z'' (backlogDb ''2024-05-01''))) = 11 \<and>
   map t_dueDate (instancesOf ''s1'' (syncRecurrenceSeriesForUser exampleNext exampleGen ''alice''
      ''2024-05-11'' ''2024-05-11T06:00:00.000Z'' (backlogDb ''2024-05-01''))) =
     [Some ''2024-05-01'', Some ''2024-05-02'', Some ''2024-05-03'', Some ''2024-05-04'',
      Some ''2024-05-05'', Some ''2024-05-06'', Some ''2024-05-07'', Some ''2024-05-08'',
      Some ''2024-05-09'', Some ''2024-05-10'', Some ''2024-05-11''] \<and>
   s_nextDueDate (recurrenceSeries (syncRecurrenceSeriesForUser exampleNext exampleGen ''alice''
      ''2024-05-11'' ''2024-05-11T06:00:00.000Z'' (backlogDb ''2024-05-01'')) ! 0) = ''2024-05-12''"
proof -
  let ?ds = "[''2024-05-01'', ''2024-05-02'', ''2024-05-03'', ''2024-05-04'', ''2024-05-05'',
      ''2024-05-06'', ''2024-05-07'', ''2024-05-08'', ''2024-05-09'', ''2024-05-10'',
      ''2024-05-11'', ''2024-05-12'']"
  let ?s = "backlogSeries ''2024-05-01''"
  have i: "0 < length (recurrenceSeries (backlogDb ''2024-05-01''))"
    and s: "recurrenceSeries (backlogDb ''2024-05-01'') ! 0 = ?s"
    by (simp_all add: backlogDb_def)
  have sel: "s_userId ?s = ''alice'' \<and> s_deletedAt ?s = None \<and> s_active ?s \<and>
         s_recurrenceBehavior ?s = DuplicateOnSchedule \<and> s_recurrenceType ?s = Daily"
    by (simp add: backlogSeries_def exampleSeries_def)
  have sid: "s_id ?s = ''s1''"
    by (simp add: backlogSeries_def)
  have none: "instancesOf (s_id ?s) (backlogDb ''2024-05-01'') = []"
    by (simp add: instancesOf_def backlogDb_def)
  have sched: "length ?ds = 12 \<and> ?ds ! 0 = s_nextDueDate ?s \<and> ?ds ! 10 = ''2024-05-11'' \<and>
      schedule exampleNext ?s ?ds"
    by (simp add: backlogSeries_def exampleSeries_def exampleNext_def date_defs)
  note spec = sync_catches_up_daily_series [OF backlogDb_wellFormed i s sel none sched,
      where now = "''2024-05-11T06:00:00.000Z''"]
  from spec show ?thesis
    unfolding sid by simp
qed

section \<open>A second pass\<close>

lemma settled_syncSeries:
  assumes "settled nxt r d"
  shows "syncSeries nxt gen today now r d = d"
proof (cases "s_recurrenceBehavior r = AfterCompletion")
  case True
  with assms show ?thesis
    by (auto simp: settled_def syncSeries_def)
next
  case False
  with assms have mat: "hasMaterializedDueDate (s_id r) (s_nextDueDate r) d"
    and stuck: "noNextDate nxt r (s_nextDueDate r)"
    by (simp_all add: settled_def)
  have "catchUp 500 nxt gen today now r (s_nextDueDate r) d = (s_nextDueDate r, d)"
    using mat stuck unfolding catchUp_numeral noNextDate_def
    by (auto split: option.splits)
  with False show ?thesis
    by (simp add: syncSeries_def)
qed

lemma settled_syncRows:
  "\<forall>r\<in>set rows. settled nxt r d \<Longrightarrow> syncRows nxt gen today now rows d = d"
  by (induction rows) (simp_all add: settled_syncSeries)

lemma settled_mono:
  assumes "settled nxt r d" and "wellFormed gen d" and "wellFormed gen d'"
    and "set (tasks d) \<subseteq> set (tasks d')"
  shows "settled nxt r d'"
proof -
  have "hasOutstandingInstance sid d \<Longrightarrow> hasOutstandingInstance sid d'" for sid
    unfolding hasOutstandingInstance_iff [OF assms(2)] hasOutstandingInstance_iff [OF assms(3)]
    using assms(4) by blast
  moreover have "hasMaterializedDueDate sid due d \<Longrightarrow> hasMaterializedDueDate sid due d'"
    for sid due
    unfolding hasMaterializedDueDate_iff [OF assms(2)] hasMaterializedDueDate_iff [OF assms(3)]
    using assms(4) by blast
  ultimately show ?thesis
    using assms(1) unfolding settled_def by (auto split: if_splits)
qed

lemma materialized_after:
  assumes "wellFormed gen d"
  shows "hasMaterializedDueDate (s_id s) c
           (if \<not> hasMaterializedDueDate (s_id s) c d then materializeSeries gen now s c d else d)"
proof (cases "hasMaterializedDueDate (s_id s) c d")
  case True
  then show ?thesis by simp
next
  case False
  have wf': "wellFormed gen (materializeSeries gen now s c d)"
    using assms by (rule wellFormed_materialize)
  have "instanceValues (gen (idSeq d)) now s c \<in> set (tasks (materializeSeries gen now s c d))"
    by (simp add: materializeSeries_fields)
  then have "hasMaterializedDueDate (s_id s) c (materializeSeries gen now s c d)"
    unfolding hasMaterializedDueDate_iff [OF wf']
    by (intro bexI [of _ "instanceValues (gen (idSeq d)) now s c"]) simp_all
  with False show ?thesis by simp
qed

lemma wellFormed_ensure:
  "wellFormed gen d \<Longrightarrow>
   wellFormed gen (if \<not> hasMaterializedDueDate sid c d then materializeSeries gen now s c d else d)"
  by (simp add: wellFormed_materialize)

lemma caughtUp_settles:
  assumes "caughtUp n nxt today s c" and "wellFormed gen d"
  shows "today < fst (catchUp n nxt gen today now s c d) \<or>
         (hasMaterializedDueDate (s_id s) (fst (catchUp n nxt gen today now s c d))
            (snd (catchUp n nxt gen today now s c d)) \<and>
          noNextDate nxt s (fst (catchUp n nxt gen today now s c d)))"
  using assms
proof (induction n arbitrary: c d)
  case 0
  then show ?case by simp
next
  case (Suc n)
  let ?d1 = "if \<not> hasMaterializedDueDate (s_id s) c d then materializeSeries gen now s c d else d"
  have wf1: "wellFormed gen ?d1"
    using Suc.prems(2) by (rule wellFormed_ensure)
  have mat1: "hasMaterializedDueDate (s_id s) c ?d1"
    using Suc.prems(2) by (rule materialized_after)
  show ?case
  proof (cases "c > today")
    case True
    then show ?thesis by simp
  next
    case False
    show ?thesis
    proof (cases "nxt c (s_recurrenceType s) (s_recurrenceRule s)")
      case None
      then have "noNextDate nxt s c" by (simp add: noNextDate_def)
      with False None mat1 show ?thesis by (simp add: Let_def)
    next
      case (Some nx)
      show ?thesis
      proof (cases "nx = [] \<or> nx = c")
        case True
        with Some have "noNextDate nxt s c" by (simp add: noNextDate_def)
        with False Some True mat1 show ?thesis by (simp add: Let_def)
      next
        case go: False
        with Suc.prems(1) False Some have "caughtUp n nxt today s nx"
          by simp
        from Suc.IH [OF this wf1] False Some go show ?thesis
          by (simp add: Let_def)
      qed
    qed
  qed
qed

lemma syncSeries_settles:
  assumes "wellFormed gen d" and "i < length (recurrenceSeries d)"
    and "recurrenceSeries d ! i = s"
    and "s_recurrenceBehavior s \<noteq> AfterCompletion \<longrightarrow>
           caughtUp 500 nxt today s (s_nextDueDate s)"
    and "s_nextDueDate (recurrenceSeries (syncSeries nxt gen today now s d) ! i) \<le> today"
  shows "settled nxt (recurrenceSeries (syncSeries nxt gen today now s d) ! i)
           (syncSeries nxt gen today now s d)"
proof (cases "s_recurrenceBehavior s = AfterCompletion")
  case True
  let ?d2 = "syncSeries nxt gen today now s d"
  have row: "recurrenceSeries ?d2 ! i = s"
    using True assms(2,3) by (simp add: syncSeries_series)
  have "settled nxt s ?d2"
  proof (cases "hasOutstandingInstance (s_id s) d \<or>
                hasMaterializedDueDate (s_id s) (s_nextDueDate s) d")
    case yes: True
    then have "?d2 = d" using True by (auto simp: syncSeries_def)
    with yes True show ?thesis by (simp add: settled_def)
  next
    case no: False
    then have d2: "?d2 = materializeSeries gen now s (s_nextDueDate s) d"
      using True by (simp add: syncSeries_def)
    have wf2: "wellFormed gen ?d2"
      using assms(1) by (rule wellFormed_syncSeries)
    have "instanceValues (gen (idSeq d)) now s (s_nextDueDate s) \<in> set (tasks ?d2)"
      by (simp add: d2 materializeSeries_fields)
    then have "hasOutstandingInstance (s_id s) ?d2"
      unfolding hasOutstandingInstance_iff [OF wf2]
      by (intro bexI [of _ "instanceValues (gen (idSeq d)) now s (s_nextDueDate s)"]) simp_all
    with True show ?thesis by (simp add: settled_def)
  qed
  with row show ?thesis by simp
next
  case False
  let ?d2 = "syncSeries nxt gen today now s d"
  let ?cu = "catchUp 500 nxt gen today now s (s_nextDueDate s) d"
  obtain cf dc where cu: "?cu = (cf, dc)"
    by (cases ?cu)
  have rs: "recurrenceSeries dc = recurrenceSeries d"
    using catchUp_series [of 500 nxt gen today now s "s_nextDueDate s" d] cu by simp
  have d2: "?d2 = (if cf \<noteq> s_nextDueDate s
            then dc\<lparr>recurrenceSeries :=
                     map (\<lambda>r. if s_id r = s_id s then advanceSeries cf now r else r)
                       (recurrenceSeries dc)\<rparr>
            else dc)"
    using False cu by (rule syncSeries_duplicate)
  have row: "recurrenceSeries ?d2 ! i = (if cf \<noteq> s_nextDueDate s then advanceSeries cf now s else s)"
    unfolding d2 using assms(2,3) rs by simp
  then have due: "s_nextDueDate (recurrenceSeries ?d2 ! i) = cf"
    and same: "s_id (recurrenceSeries ?d2 ! i) = s_id s"
      "s_recurrenceBehavior (recurrenceSeries ?d2 ! i) = s_recurrenceBehavior s"
      "s_recurrenceType (recurrenceSeries ?d2 ! i) = s_recurrenceType s"
      "s_recurrenceRule (recurrenceSeries ?d2 ! i) = s_recurrenceRule s"
    by (simp_all split: if_splits)
  have tasks2: "tasks ?d2 = tasks dc"
    unfolding d2 by simp
  from assms(4) False have "caughtUp 500 nxt today s (s_nextDueDate s)" by simp
  from caughtUp_settles [OF this assms(1), where now = now] cu
  have "today < cf \<or> (hasMaterializedDueDate (s_id s) cf dc \<and> noNextDate nxt s cf)"
    by simp
  moreover have "cf \<le> today"
    using assms(5) due by simp
  ultimately have mat: "hasMaterializedDueDate (s_id s) cf dc" and stuck: "noNextDate nxt s cf"
    by auto
  have "hasMaterializedDueDate (s_id s) cf ?d2"
    using mat by (simp add: hasMaterializedDueDate_def tasks2)
  moreover have "noNextDate nxt (recurrenceSeries ?d2 ! i) cf"
    using stuck by (simp add: noNextDate_def same)
  ultimately show ?thesis
    using False by (simp add: settled_def due same)
qed

lemma appended_tasks_subset:
  "appended gen now S d d' \<Longrightarrow> set (tasks d) \<subseteq> set (tasks d')"
  unfolding appended_def by auto

lemma syncRows_settles:
  assumes "wellFormed gen d" and "distinct (map s_id rows)"
    and "\<forall>s\<in>set rows. \<exists>j<length (recurrenceSeries d). recurrenceSeries d ! j = s"
    and "\<forall>s\<in>set rows. s_recurrenceBehavior s \<noteq> AfterCompletion \<longrightarrow>
           caughtUp 500 nxt today s (s_nextDueDate s)"
    and "i < length (recurrenceSeries d)"
    and "\<exists>s\<in>set rows. s_id s = s_id (recurrenceSeries d ! i)"
    and "s_nextDueDate (recurrenceSeries (syncRows nxt gen today now rows d) ! i) \<le> today"
  shows "settled nxt (recurrenceSeries (syncRows nxt gen today now rows d) ! i)
           (syncRows nxt gen today now rows d)"
  using assms
proof (induction rows arbitrary: d)
  case Nil
  then show ?case by simp
next
  case (Cons s rest)
  let ?d2 = "syncSeries nxt gen today now s d"
  let ?d' = "syncRows nxt gen today now rest ?d2"
  have wf2: "wellFormed gen ?d2"
    using Cons.prems(1) by (rule wellFormed_syncSeries)
  have wf': "wellFormed gen ?d'"
    using wf2 by (rule wellFormed_syncRows)
  have dist: "distinct (map s_id rest)" and notin: "s_id s \<notin> s_id ` set rest"
    using Cons.prems(2) by simp_all
  have other: "s_id s' \<noteq> s_id s" if "s' \<in> set rest" for s'
    using notin that by (metis imageI)
  have i2: "i < length (recurrenceSeries ?d2)"
    using Cons.prems(5) by (simp add: syncSeries_series_length)
  have "map s_id (recurrenceSeries ?d2) ! i = map s_id (recurrenceSeries d) ! i"
    by (simp only: syncSeries_series_ids)
  then have id2: "s_id (recurrenceSeries ?d2 ! i) = s_id (recurrenceSeries d ! i)"
    using i2 Cons.prems(5) by simp
  show ?case
  proof (cases "\<exists>s'\<in>set rest. s_id s' = s_id (recurrenceSeries d ! i)")
    case True
    have rows2: "\<forall>s'\<in>set rest. \<exists>j<length (recurrenceSeries ?d2). recurrenceSeries ?d2 ! j = s'"
    proof
      fix s' assume s': "s' \<in> set rest"
      with Cons.prems(3) obtain j where j: "j < length (recurrenceSeries d)"
        "recurrenceSeries d ! j = s'"
        by auto
      have "recurrenceSeries ?d2 ! j = recurrenceSeries d ! j"
        using j other [OF s'] by (intro syncSeries_series_nth_same) auto
      with j show "\<exists>j<length (recurrenceSeries ?d2). recurrenceSeries ?d2 ! j = s'"
        by (auto simp: syncSeries_series_length)
    qed
    have cu2: "\<forall>s'\<in>set rest. s_recurrenceBehavior s' \<noteq> AfterCompletion \<longrightarrow>
           caughtUp 500 nxt today s' (s_nextDueDate s')"
      using Cons.prems(4) by simp
    have ex2: "\<exists>s'\<in>set rest. s_id s' = s_id (recurrenceSeries ?d2 ! i)"
      using True id2 by simp
    have "settled nxt (recurrenceSeries ?d' ! i) ?d'"
      using wf2 dist rows2 cu2 i2 ex2 Cons.prems(7) by (intro Cons.IH) simp_all
    then show ?thesis by simp
  next
    case False
    with Cons.prems(6) have ids: "s_id s = s_id (recurrenceSeries d ! i)"
      by auto
    from Cons.prems(3) obtain j where j: "j < length (recurrenceSeries d)"
      "recurrenceSeries d ! j = s"
      by auto
    have "recurrenceSeries d ! i \<in> set (recurrenceSeries d)"
      "recurrenceSeries d ! j \<in> set (recurrenceSeries d)"
      using Cons.prems(5) j(1) by simp_all
    then have row: "recurrenceSeries d ! i = s"
      using ids j(2) wellFormed_series_id_inj [OF Cons.prems(1)] by metis
    have keep: "recurrenceSeries ?d' ! i = recurrenceSeries ?d2 ! i"
      using i2 False id2 by (intro syncRows_series_nth_same) auto
    have cu: "s_recurrenceBehavior s \<noteq> AfterCompletion \<longrightarrow>
           caughtUp 500 nxt today s (s_nextDueDate s)"
      using Cons.prems(4) by simp
    have due2: "s_nextDueDate (recurrenceSeries ?d2 ! i) \<le> today"
      using Cons.prems(7) keep by simp
    have sub: "set (tasks ?d2) \<subseteq> set (tasks ?d')"
      by (rule appended_tasks_subset [where S = "set rest" and gen = gen and now = now])
         (simp add: syncRows_appended)
    have "settled nxt (recurrenceSeries ?d2 ! i) ?d2"
      using Cons.prems(1,5) row cu due2 by (rule syncSeries_settles)
    then have "settled nxt (recurrenceSeries ?d2 ! i) ?d'"
      using wf2 wf' sub by (rule settled_mono)
    with keep show ?thesis by simp
  qed
qed

lemma sync_no_legacy_left:
  assumes "t \<in> set (tasks (syncRecurrenceSeriesForUser nxt gen u today now d))"
  shows "\<not> isLegacyRow u t"
proof -
  from sync_tasks_split [of nxt gen u today now d]
  obtain news where news: "tasks (syncRecurrenceSeriesForUser nxt gen u today now d) =
      tasks (migrateLegacyTaskRecurrencesForUser nxt gen u today now d) @ news"
    "\<forall>t\<in>set news. \<exists>s\<in>set (recurrenceSeries
                 (migrateLegacyTaskRecurrencesForUser nxt gen u today now d)). \<exists>i due.
              isDueSeries u today s \<and> t = instanceValues i now s due"
    by blast
  show ?thesis
  proof (cases "t \<in> set news")
    case True
    with news(2) obtain s i due where "t = instanceValues i now s due" by blast
    then show ?thesis by (simp add: isLegacyRow_def)
  next
    case False
    with assms news(1)
    have "t \<in> set (tasks (migrateLegacyTaskRecurrencesForUser nxt gen u today now d))"
      by simp
    then show ?thesis by (rule migrate_no_legacy_left)
  qed
qed

text \<open>
  Claim C1, amended. Let every duplicate-on-schedule series the first pass selects be
  caught up by it: its catch-up loop ends with the cursor after today or at a date with
  no next date, not by running out of its 500 iterations with dates up to today left.
  Then a second pass for the same user and date, run right after the first, leaves the
  store as the first left it: it inserts no task and changes no row.
\<close>

theorem sync_twice_is_sync_once_when_caught_up:
  assumes "wellFormed gen d"
    and "\<forall>s\<in>set (recurrenceSeries (migrateLegacyTaskRecurrencesForUser nxt gen u today now d)).
           isDueSeries u today s \<and> s_recurrenceBehavior s = DuplicateOnSchedule \<longrightarrow>
           caughtUp 500 nxt today s (s_nextDueDate s)"
  shows "syncRecurrenceSeriesForUser nxt gen u today now'
           (syncRecurrenceSeriesForUser nxt gen u today now d) =
         syncRecurrenceSeriesForUser nxt gen u today now d"
proof -
  let ?d0 = "migrateLegacyTaskRecurrencesForUser nxt gen u today now d"
  let ?rows0 = "filter (isDueSeries u today) (recurrenceSeries ?d0)"
  let ?d1 = "syncRecurrenceSeriesForUser nxt gen u today now d"
  let ?rows1 = "filter (isDueSeries u today) (recurrenceSeries ?d1)"
  have d1: "?d1 = syncRows nxt gen today now ?rows0 ?d0"
    by (simp add: syncRecurrenceSeriesForUser_def Let_def)
  have wf0: "wellFormed gen ?d0"
    using assms(1) by (rule wellFormed_migrate)
  have dist: "distinct (map s_id ?rows0)"
    using wellFormedD(2) [OF wf0] by (rule distinct_map_filter)
  have rows: "\<forall>s\<in>set ?rows0. \<exists>j<length (recurrenceSeries ?d0). recurrenceSeries ?d0 ! j = s"
    by (auto simp: in_set_conv_nth)
  have cu: "\<forall>s\<in>set ?rows0. s_recurrenceBehavior s \<noteq> AfterCompletion \<longrightarrow>
           caughtUp 500 nxt today s (s_nextDueDate s)"
  proof (intro ballI impI)
    fix s assume "s \<in> set ?rows0" and "s_recurrenceBehavior s \<noteq> AfterCompletion"
    then have "s \<in> set (recurrenceSeries ?d0)" "isDueSeries u today s"
      "s_recurrenceBehavior s = DuplicateOnSchedule"
      by (simp_all, cases "s_recurrenceBehavior s") simp_all
    with assms(2) show "caughtUp 500 nxt today s (s_nextDueDate s)" by blast
  qed
  have all: "settled nxt r ?d1" if r: "r \<in> set ?rows1" for r
  proof -
    from r have due: "isDueSeries u today r" and "r \<in> set (recurrenceSeries ?d1)"
      by simp_all
    then obtain i where i1: "i < length (recurrenceSeries ?d1)" and ri: "recurrenceSeries ?d1 ! i = r"
      by (auto simp: in_set_conv_nth)
    have i0: "i < length (recurrenceSeries ?d0)"
      using i1 by (simp add: d1 syncRows_series_length)
    show ?thesis
    proof (cases "\<exists>s\<in>set ?rows0. s_id s = s_id (recurrenceSeries ?d0 ! i)")
      case True
      have "s_nextDueDate (recurrenceSeries (syncRows nxt gen today now ?rows0 ?d0) ! i) \<le> today"
        using due ri by (simp add: d1 [symmetric] isDueSeries_def)
      with wf0 dist rows cu i0 True
      have "settled nxt (recurrenceSeries (syncRows nxt gen today now ?rows0 ?d0) ! i)
              (syncRows nxt gen today now ?rows0 ?d0)"
        by (rule syncRows_settles)
      then show ?thesis
        using ri by (simp add: d1 [symmetric])
    next
      case False
      then have "recurrenceSeries (syncRows nxt gen today now ?rows0 ?d0) ! i =
                 recurrenceSeries ?d0 ! i"
        using i0 by (intro syncRows_series_nth_same) auto
      then have same: "recurrenceSeries ?d0 ! i = r"
        using ri by (simp add: d1 [symmetric])
      then have "r \<in> set ?rows0"
        using due i0 nth_mem [of i "recurrenceSeries ?d0"] by simp
      with False same show ?thesis by auto
    qed
  qed
  have "migrateLegacyTaskRecurrencesForUser nxt gen u today now' ?d1 = ?d1"
    by (rule migrate_fixpoint) (simp add: sync_no_legacy_left)
  then have "syncRecurrenceSeriesForUser nxt gen u today now' ?d1 =
             syncRows nxt gen today now' ?rows1 ?d1"
    by (simp add: syncRecurrenceSeriesForUser_def Let_def)
  also have "\<dots> = ?d1"
    by (rule settled_syncRows) (simp add: all)
  finally show ?thesis .
qed

lemma steps_numeral:
  "steps (numeral k) nxt s today c =
     (if c > today then None
      else case nxt c (s_recurrenceType s) (s_recurrenceRule s) of
             None \<Rightarrow> None
           | Some c' \<Rightarrow> if c < c' then steps (pred_numeral k) nxt s today c' else None)"
  by (simp add: numeral_eq_Suc)

lemma caughtUp_numeral:
  "caughtUp (numeral k) nxt today s c \<longleftrightarrow>
     (if c > today then True
      else case nxt c (s_recurrenceType s) (s_recurrenceRule s) of
             None \<Rightarrow> True
           | Some nx \<Rightarrow>
               if nx = [] \<or> nx = c then True
               else caughtUp (pred_numeral k) nxt today s nx)"
  by (simp add: numeral_eq_Suc)

lemma steps_schedule:
  "steps n nxt s today c = Some e \<Longrightarrow>
   \<exists>cs. length cs = n \<and> schedule nxt s (c # cs) \<and>
        (\<forall>x\<in>set (butlast (c # cs)). x \<le> today) \<and> last (c # cs) = e"
proof (induction n arbitrary: c)
  case 0
  then show ?case by simp
next
  case (Suc n)
  from Suc.prems have le: "c \<le> today"
    by (simp split: if_splits)
  from Suc.prems le obtain c' where c': "nxt c (s_recurrenceType s) (s_recurrenceRule s) = Some c'"
    "c < c'" "steps n nxt s today c' = Some e"
    by (auto split: option.splits if_splits)
  from Suc.IH [OF c'(3)] obtain cs where cs: "length cs = n" "schedule nxt s (c' # cs)"
    "\<forall>x\<in>set (butlast (c' # cs)). x \<le> today" "last (c' # cs) = e"
    by blast
  have "length (c' # cs) = Suc n \<and> schedule nxt s (c # c' # cs) \<and>
        (\<forall>x\<in>set (butlast (c # c' # cs)). x \<le> today) \<and> last (c # c' # cs) = e"
    using cs c' le by simp
  then show ?case by blast
qed

lemma backlog_steps:
  "steps 500 exampleNext (backlogSeries ''2023-01-01'') ''2024-05-15'' ''2023-01-01'' =
     Some ''2024-05-15''"
  by (simp add: steps_numeral backlogSeries_def exampleSeries_def exampleNext_def date_defs)

text \<open>
  The store with one daily duplicate-on-schedule series due since 2023-01-01, synced
  on 2024-05-15: the loop of the first pass uses its 500 iterations on the dates
  2023-01-01 to 2024-05-14 and stores the cursor 2024-05-15, which is not after today.
  The second pass selects the series again and inserts an instance for 2024-05-15.
\<close>

theorem sync_stale_backlog_counterexample:
  "tasks (backlogDb ''2023-01-01'') = [] \<and>
   map (\<lambda>s. (s_id s, s_recurrenceBehavior s, s_recurrenceType s, s_nextDueDate s))
     (recurrenceSeries (backlogDb ''2023-01-01'')) =
     [(''s1'', DuplicateOnSchedule, Daily, ''2023-01-01'')] \<and>
   length (instancesOf ''s1'' (syncRecurrenceSeriesForUser exampleNext exampleGen ''alice''
      ''2024-05-15'' ''2024-05-15T06:00:00.000Z'' (backlogDb ''2023-01-01''))) = 500 \<and>
   s_nextDueDate (recurrenceSeries (syncRecurrenceSeriesForUser exampleNext exampleGen ''alice''
      ''2024-05-15'' ''2024-05-15T06:00:00.000Z'' (backlogDb ''2023-01-01'')) ! 0) = ''2024-05-15'' \<and>
   length (instancesOf ''s1'' (syncRecurrenceSeriesForUser exampleNext exampleGen ''alice''
      ''2024-05-15'' ''2024-05-15T06:00:01.000Z''
      (syncRecurrenceSeriesForUser exampleNext exampleGen ''alice''
        ''2024-05-15'' ''2024-05-15T06:00:00.000Z'' (backlogDb ''2023-01-01'')))) = 501 \<and>
   syncRecurrenceSeriesForUser exampleNext exampleGen ''alice''
      ''2024-05-15'' ''2024-05-15T06:00:01.000Z''
      (syncRecurrenceSeriesForUser exampleNext exampleGen ''alice''
        ''2024-05-15'' ''2024-05-15T06:00:00.000Z'' (backlogDb ''2023-01-01'')) \<noteq>
   syncRecurrenceSeriesForUser exampleNext exampleGen ''alice''
      ''2024-05-15'' ''2024-05-15T06:00:00.000Z'' (backlogDb ''2023-01-01'')"
proof -
  let ?s = "backlogSeries ''2023-01-01''"
  let ?d = "backlogDb ''2023-01-01''"
  let ?now = "''2024-05-15T06:00:00.000Z''"
  let ?d1 = "syncRecurrenceSeriesForUser exampleNext exampleGen ''alice'' ''2024-05-15'' ?now ?d"
  let ?d2 = "syncRecurrenceSeriesForUser exampleNext exampleGen ''alice'' ''2024-05-15''
      ''2024-05-15T06:00:01.000Z'' ?d1"
  let ?s1 = "advanceSeries ''2024-05-15'' ?now ?s"
  have start: "tasks ?d = [] \<and>
     map (\<lambda>s. (s_id s, s_recurrenceBehavior s, s_recurrenceType s, s_nextDueDate s))
       (recurrenceSeries ?d) = [(''s1'', DuplicateOnSchedule, Daily, ''2023-01-01'')]"
    by (simp add: backlogDb_def backlogSeries_def exampleSeries_def)
  have i: "0 < length (recurrenceSeries ?d)" and s: "recurrenceSeries ?d ! 0 = ?s"
    by (simp_all add: backlogDb_def)
  have sel: "s_userId ?s = ''alice''" "s_deletedAt ?s = None" "s_active ?s"
    "s_recurrenceBehavior ?s = DuplicateOnSchedule"
    by (simp_all add: backlogSeries_def exampleSeries_def)
  have sid: "s_id ?s = ''s1''" and due: "s_nextDueDate ?s = ''2023-01-01''"
    by (simp_all add: backlogSeries_def)
  from steps_schedule [OF backlog_steps]
  obtain cs where cs: "length cs = 500" "schedule exampleNext ?s (''2023-01-01'' # cs)"
    "\<forall>x\<in>set (butlast (''2023-01-01'' # cs)). x \<le> ''2024-05-15''"
    "last (''2023-01-01'' # cs) = ''2024-05-15''"
    by blast
  have ne: "cs \<noteq> []" and le: "length cs \<le> 500"
    and after: "length cs < 500 \<longrightarrow> ''2024-05-15'' < last cs"
    using cs(1) by auto
  have lastcs: "last cs = ''2024-05-15''"
    using cs(4) ne by simp
  have prior: "\<forall>t\<in>set (instancesOf (s_id ?s) ?d).
                  \<forall>x\<in>set (butlast (s_nextDueDate ?s # cs)). t_dueDate t \<noteq> Some x"
    by (simp add: instancesOf_def backlogDb_def)
  have sched: "schedule exampleNext ?s (s_nextDueDate ?s # cs)"
    and upto: "\<forall>x\<in>set (butlast (s_nextDueDate ?s # cs)). x \<le> ''2024-05-15''"
    using cs(2,3) by (simp_all only: due)
  note first = sync_catch_up [OF backlogDb_wellFormed i s sel prior sched ne le upto after,
      where now = ?now]
  from first(1) obtain k where inst1: "instancesOf ''s1'' ?d1 =
      map (\<lambda>j. instanceValues (exampleGen (k + j)) ?now ?s ((''2023-01-01'' # cs) ! j)) [0..<500]"
    unfolding sid due cs(1) by (auto simp: instancesOf_def backlogDb_def)
  have row1: "recurrenceSeries ?d1 ! 0 = ?s1"
    using first(2) by (simp only: lastcs)
  have len1: "length (instancesOf ''s1'' ?d1) = 500"
    unfolding inst1 by simp
  have next1: "s_nextDueDate (recurrenceSeries ?d1 ! 0) = ''2024-05-15''"
    unfolding row1 by simp
  have wf1: "wellFormed exampleGen ?d1"
    using backlogDb_wellFormed by (rule wellFormed_sync)
  have i1: "0 < length (recurrenceSeries ?d1)"
    by (simp add: sync_series_length migrate_fields backlogDb_def)
  have sel1: "s_userId ?s1 = ''alice''" "s_deletedAt ?s1 = None" "s_active ?s1"
    "s_recurrenceBehavior ?s1 = DuplicateOnSchedule"
    using sel by simp_all
  have sid1: "s_id ?s1 = ''s1''" and due1: "s_nextDueDate ?s1 = ''2024-05-15''"
    using sid by simp_all
  have sorted: "sorted_wrt (<) (''2023-01-01'' # cs)"
    using cs(2) by (rule schedule_sorted)
  have "(''2023-01-01'' # cs) ! 500 = ''2024-05-15''"
    using cs(1,4) ne by (simp add: last_conv_nth)
  then have before: "(''2023-01-01'' # cs) ! j < ''2024-05-15''" if "j < 500" for j
    using sorted_wrt_nth_less [OF sorted that] cs(1) by simp
  have prior1: "\<forall>t\<in>set (instancesOf (s_id ?s1) ?d1).
                  \<forall>x\<in>set (butlast (s_nextDueDate ?s1 # [''2024-05-16''])). t_dueDate t \<noteq> Some x"
  proof (intro ballI)
    fix t x
    assume t: "t \<in> set (instancesOf (s_id ?s1) ?d1)"
      and x: "x \<in> set (butlast (s_nextDueDate ?s1 # [''2024-05-16'']))"
    from x have x': "x = ''2024-05-15''"
      unfolding due1 by simp
    from t obtain j where j: "j < 500"
      "t = instanceValues (exampleGen (k + j)) ?now ?s ((''2023-01-01'' # cs) ! j)"
      unfolding sid1 inst1 by auto
    from j(2) have "t_dueDate t = Some ((''2023-01-01'' # cs) ! j)"
      by simp
    moreover have "(''2023-01-01'' # cs) ! j \<noteq> ''2024-05-15''"
      using before [OF j(1)] by simp
    ultimately show "t_dueDate t \<noteq> Some x"
      using x' by simp
  qed
  have sched1: "schedule exampleNext ?s1 (s_nextDueDate ?s1 # [''2024-05-16''])"
    unfolding due1
    by (simp add: backlogSeries_def exampleSeries_def exampleNext_def date_defs)
  have upto1: "\<forall>x\<in>set (butlast (s_nextDueDate ?s1 # [''2024-05-16''])). x \<le> ''2024-05-15''"
    unfolding due1 by simp
  have after1: "length [''2024-05-16''] < 500 \<longrightarrow> ''2024-05-15'' < last [''2024-05-16'']"
    by simp
  have ne1: "[''2024-05-16''] \<noteq> []" and le1: "length [''2024-05-16''] \<le> 500"
    by simp_all
  note second = sync_catch_up [OF wf1 i1 row1 sel1 prior1 sched1 ne1 le1 upto1 after1,
      where now = "''2024-05-15T06:00:01.000Z''"]
  from second(1) have len2: "length (instancesOf ''s1'' ?d2) = 501"
    unfolding sid1 using len1 by auto
  from len1 len2 have "?d2 \<noteq> ?d1"
    by auto
  with start len1 next1 len2 show ?thesis
    by blast
qed

theorem sync_twice_is_sync_once_when_caught_up_witness:
  "syncRecurrenceSeriesForUser exampleNext exampleGen ''alice'' ''2024-05-10''
     ''2024-05-10T06:00:01.000Z''
     (syncRecurrenceSeriesForUser exampleNext exampleGen ''alice'' ''2024-05-10''
        ''2024-05-10T06:00:00.000Z'' exampleDb) =
   syncRecurrenceSeriesForUser exampleNext exampleGen ''alice'' ''2024-05-10''
     ''2024-05-10T06:00:00.000Z'' exampleDb \<and>
   length (tasks exampleDb) = 3 \<and>
   length (tasks (syncRecurrenceSeriesForUser exampleNext exampleGen ''alice'' ''2024-05-10''
        ''2024-05-10T06:00:00.000Z'' exampleDb)) = 7"
proof -
  have cu: "\<forall>s\<in>set (recurrenceSeries (migrateLegacyTaskRecurrencesForUser exampleNext exampleGen
             ''alice'' ''2024-05-10'' ''2024-05-10T06:00:00.000Z'' exampleDb)).
           isDueSeries ''alice'' ''2024-05-10'' s \<and> s_recurrenceBehavior s = DuplicateOnSchedule \<longrightarrow>
           caughtUp 500 exampleNext ''2024-05-10'' s (s_nextDueDate s)"
    by (simp add: sync_defs date_defs example_defs caughtUp_numeral)
  have "length (tasks exampleDb) = 3"
    by (simp add: exampleDb_def)
  moreover have "length (tasks (syncRecurrenceSeriesForUser exampleNext exampleGen ''alice''
        ''2024-05-10'' ''2024-05-10T06:00:00.000Z'' exampleDb)) = 7"
  proof -
    have "length (map (\<lambda>t. (t_id t, t_dueDate t, t_status t, t_recurrenceSeriesId t))
       (tasks (syncRecurrenceSeriesForUser exampleNext exampleGen ''alice''
        ''2024-05-10'' ''2024-05-10T06:00:00.000Z'' exampleDb))) = 7"
      by (simp only: example_sync [THEN conjunct1]) simp
    then show ?thesis
      by (simp only: length_map)
  qed
  ultimately show ?thesis
    using sync_twice_is_sync_once_when_caught_up [OF exampleDb_wellFormed cu,
        where now' = "''2024-05-10T06:00:01.000Z''"]
    by blast
qed

end
